theory Spec2Isabelle
  imports Complex_Main "HOL-Library.AList" "HOL-Library.Char_ord" "HOL-Library.List_Lexorder"
begin

section \<open>Platform model: strings, numbers and objects\<close>

text \<open>
  The services are JavaScript modules. Strings are modelled as \<open>string\<close>, and a plain
  object with string keys as an association list in insertion order: reading a
  property is \<open>obj_get\<close>, assigning one is \<open>obj_set\<close> (the value is replaced in place
  when the key exists, the pair is appended otherwise), \<open>Object.keys\<close> and
  \<open>Object.values\<close> are the two projections. The rewards, bounds and totals of the stored
  document are integers.
\<close>

type_synonym 'v obj = "(string \<times> 'v) list"

definition obj_get :: "'v obj \<Rightarrow> string \<Rightarrow> 'v option" where
  "obj_get ob k = map_of ob k"

definition obj_set :: "'v obj \<Rightarrow> string \<Rightarrow> 'v \<Rightarrow> 'v obj" where
  "obj_set ob k v = AList.update k v ob"

definition obj_keys :: "'v obj \<Rightarrow> string list" where
  "obj_keys ob = map fst ob"

definition obj_values :: "'v obj \<Rightarrow> 'v list" where
  "obj_values ob = map snd ob"

text \<open>Truthiness of a property read: a missing property and the number 0 are falsy.\<close>

definition truthy_num :: "int option \<Rightarrow> bool" where
  "truthy_num x = (case x of None \<Rightarrow> False | Some v \<Rightarrow> v \<noteq> 0)"

definition truthy_flag :: "bool option \<Rightarrow> bool" where
  "truthy_flag x = (case x of None \<Rightarrow> False | Some b \<Rightarrow> b)"

text \<open>\<open>String.prototype.split\<close> on a one-character separator.\<close>

fun split_on :: "char \<Rightarrow> string \<Rightarrow> string list" where
  "split_on c [] = [[]]"
| "split_on c (x # xs) =
     (if x = c then [] # split_on c xs
      else (case split_on c xs of
              [] \<Rightarrow> [[x]]
            | w # ws \<Rightarrow> (x # w) # ws))"

text \<open>
  The values that the pieces of a date key take: \<open>undefined\<close> (a missing piece), and the
  numbers \<open>NaN\<close>, \<open>Infinity\<close>, \<open>-Infinity\<close> and the finite ones. A finite number is a
  real; the platform's numbers are the reals that are IEEE doubles.
\<close>

datatype jsval = Undefined | NaN | PosInfinity | NegInfinity | Fin real

text \<open>An integer as a number.\<close>

definition IntVal :: "int \<Rightarrow> jsval" where
  "IntVal n = Fin (of_int n)"

text \<open>
  The local calendar fields of a valid \<open>Date\<close>: the year, the month index counted
  from 0 and the day of the month.
\<close>

record date =
  getFullYear :: int
  getMonth :: int
  getDate :: int

text \<open>
  What the language leaves to the platform, or what depends on the rounding of
  doubles, is a parameter of the model:
  \<^item> \<open>number_of\<close> is \<open>Number(s)\<close> for the strings that are not a short decimal numeral
    (signs, blanks, fractions, exponents, hexadecimal literals, \<open>Infinity\<close>, long
    digit runs, everything that converts to \<open>NaN\<close>);
  \<^item> \<open>text_of\<close> is the text of a finite number inside a template literal, for the
    numbers that are not integers of absolute value below \<open>2^53\<close>;
  \<^item> \<open>rounded\<close> is the rounding of an exact result to a double;
  \<^item> \<open>local_offset\<close> is the offset of local time from UTC, in milliseconds, at a
    local time;
  \<^item> \<open>local_fields\<close> gives the local calendar fields that a Date built for local
    midnight of a day reads back: those of that day, except for a day that the
    zone skipped.
\<close>

record runtime =
  number_of :: "string \<Rightarrow> jsval"
  text_of :: "real \<Rightarrow> string"
  rounded :: "real \<Rightarrow> real"
  local_offset :: "int \<Rightarrow> int"
  local_fields :: "date \<Rightarrow> date"

text \<open>
  \<open>Number(s)\<close> on a piece of a date key. A run of at most 15 decimal digits converts
  to the integer it writes, exactly (the empty run converts to 0); every other string
  is converted by the platform.
\<close>

definition digit_of :: "char \<Rightarrow> int option" where
  "digit_of c = map_of (zip ''0123456789'' [0, 1, 2, 3, 4, 5, 6, 7, 8, 9]) c"

fun digits_value :: "int \<Rightarrow> string \<Rightarrow> int option" where
  "digits_value acc [] = Some acc"
| "digits_value acc (c # cs) =
     (case digit_of c of
        None \<Rightarrow> None
      | Some d \<Rightarrow> digits_value (10 * acc + d) cs)"

definition jsNumber :: "'a runtime_scheme \<Rightarrow> string \<Rightarrow> jsval" where
  "jsNumber env s =
     (case digits_value 0 s of
        Some n \<Rightarrow> if length s \<le> 15 then IntVal n else number_of env s
      | None \<Rightarrow> number_of env s)"

text \<open>An integer inside a template literal: its decimal numeral.\<close>

fun show_nat :: "nat \<Rightarrow> string" where
  "show_nat n =
     (if n < 10 then [''0123456789'' ! n]
      else show_nat (n div 10) @ [''0123456789'' ! (n mod 10)])"

declare show_nat.simps [simp del]

definition show_int :: "int \<Rightarrow> string" where
  "show_int i = (if i < 0 then CHR ''-'' # show_nat (nat (- i)) else show_nat (nat i))"

text \<open>
  A value inside a template literal. An integer of absolute value below \<open>2^53\<close> is
  written as its decimal numeral; the text of the other finite numbers (the shortest
  digits that identify the double, an exponent from \<open>10^21\<close> on) is the platform's.
\<close>

definition is_integer :: "real \<Rightarrow> bool" where
  "is_integer r = (r = of_int \<lfloor>r\<rfloor>)"

definition jsText :: "'a runtime_scheme \<Rightarrow> jsval \<Rightarrow> string" where
  "jsText env v =
     (case v of
        Undefined \<Rightarrow> ''undefined''
      | NaN \<Rightarrow> ''NaN''
      | PosInfinity \<Rightarrow> ''Infinity''
      | NegInfinity \<Rightarrow> ''-Infinity''
      | Fin r \<Rightarrow>
          if is_integer r \<and> \<bar>r\<bar> < 2 ^ 53 then show_int \<lfloor>r\<rfloor> else text_of env r)"

text \<open>
  \<open>x - 1\<close>: \<open>undefined\<close> converts to \<open>NaN\<close>; on an integer of absolute value below
  \<open>2^53\<close> the difference is exact, and otherwise it is the exact difference rounded.
\<close>

definition minus_one :: "'a runtime_scheme \<Rightarrow> jsval \<Rightarrow> jsval" where
  "minus_one env v =
     (case v of
        Undefined \<Rightarrow> NaN
      | NaN \<Rightarrow> NaN
      | PosInfinity \<Rightarrow> PosInfinity
      | NegInfinity \<Rightarrow> NegInfinity
      | Fin r \<Rightarrow>
          if is_integer r \<and> \<bar>r\<bar> < 2 ^ 53 then Fin (r - 1) else Fin (rounded env (r - 1)))"

section \<open>Platform model: calendar dates\<close>

text \<open>
  A \<open>Date\<close> built from numeric components is either invalid (\<open>None\<close>: every field reads
  \<open>NaN\<close>) or given by its local calendar fields in the proleptic Gregorian calendar.
  The constructor \<open>new Date(year, monthIndex, day)\<close> converts its arguments to
  numbers; the Date is invalid when one of them is not finite. Otherwise each is
  truncated towards zero, the years 0 to 99 are mapped to 1900 to 1999, a month index
  outside 0 to 11 is carried into the year, a day outside the month is carried into
  the neighbouring months, and the Date is invalid when its time value, local midnight
  of that day converted to UTC, lies more than \<open>8.64 * 10^15\<close> milliseconds
  (100 000 000 days) from the epoch. The local fields of a valid Date are the ones
  the platform reads back for that day.
\<close>

definition is_leap :: "int \<Rightarrow> bool" where
  "is_leap y = (y mod 4 = 0 \<and> (y mod 100 \<noteq> 0 \<or> y mod 400 = 0))"

definition month_length :: "int \<Rightarrow> int \<Rightarrow> int" where
  "month_length y m =
     (if m = 1 then (if is_leap y then 29 else 28)
      else if m = 3 \<or> m = 5 \<or> m = 8 \<or> m = 10 then 30
      else 31)"

definition prev_year :: "int \<Rightarrow> int \<Rightarrow> int" where
  "prev_year y m = (if m = 0 then y - 1 else y)"

definition prev_month :: "int \<Rightarrow> int" where
  "prev_month m = (if m = 0 then 11 else m - 1)"

definition next_year :: "int \<Rightarrow> int \<Rightarrow> int" where
  "next_year y m = (if m = 11 then y + 1 else y)"

definition next_month :: "int \<Rightarrow> int" where
  "next_month m = (if m = 11 then 0 else m + 1)"

lemma month_length_bounds: "28 \<le> month_length y m \<and> month_length y m \<le> 31"
  by (simp add: month_length_def)

function carry_days :: "int \<Rightarrow> int \<Rightarrow> int \<Rightarrow> date" where
  "carry_days y m d =
     (if d < 1 then
        carry_days (prev_year y m) (prev_month m)
          (d + month_length (prev_year y m) (prev_month m))
      else if month_length y m < d then
        carry_days (next_year y m) (next_month m) (d - month_length y m)
      else \<lparr>getFullYear = y, getMonth = m, getDate = d\<rparr>)"
  by pat_completeness auto
termination
proof (relation "measure (\<lambda>(y, m, d). if d < 1 then nat (1 - d) + 31 else nat d)")
  show "wf (measure (\<lambda>(y, m, d). if d < 1 then nat (1 - d) + 31 else nat d))"
    by simp
next
  fix y m d :: int
  assume "d < 1"
  moreover have "28 \<le> month_length (prev_year y m) (prev_month m)"
    and "month_length (prev_year y m) (prev_month m) \<le> 31"
    using month_length_bounds by blast+
  ultimately show "((prev_year y m, prev_month m,
        d + month_length (prev_year y m) (prev_month m)), (y, m, d))
      \<in> measure (\<lambda>(y, m, d). if d < 1 then nat (1 - d) + 31 else nat d)"
    by auto
next
  fix y m d :: int
  assume "\<not> d < 1" and "month_length y m < d"
  moreover have "28 \<le> month_length y m"
    using month_length_bounds by blast
  ultimately show "((next_year y m, next_month m, d - month_length y m), (y, m, d))
      \<in> measure (\<lambda>(y, m, d). if d < 1 then nat (1 - d) + 31 else nat d)"
    by auto
qed

declare carry_days.simps [simp del]

text \<open>
  The day number of a calendar date counted from 1970-01-01, and from it the weekday
  \<open>getDay\<close> (0 is Sunday; 1970-01-01 was a Thursday).
\<close>

definition days_from_civil :: "int \<Rightarrow> int \<Rightarrow> int \<Rightarrow> int" where
  "days_from_civil y m d =
     (let y1 = (if m \<le> 1 then y - 1 else y);
          era = y1 div 400;
          yoe = y1 - era * 400;
          mp = (m + 10) mod 12;
          doy = (153 * mp + 2) div 5 + d - 1;
          doe = yoe * 365 + yoe div 4 - yoe div 100 + doy
      in era * 146097 + doe - 719468)"

definition getDay :: "date \<Rightarrow> int" where
  "getDay dt = (days_from_civil (getFullYear dt) (getMonth dt) (getDate dt) + 4) mod 7"

text \<open>The number conversion of a constructor argument, and the truncation towards zero.\<close>

definition finite_of :: "jsval \<Rightarrow> real option" where
  "finite_of v = (case v of Fin r \<Rightarrow> Some r | _ \<Rightarrow> None)"

definition trunc :: "real \<Rightarrow> int" where
  "trunc r = (if 0 \<le> r then \<lfloor>r\<rfloor> else \<lceil>r\<rceil>)"

text \<open>
  Whether local midnight of the day with the given day number has a time value within
  the limit.
\<close>

definition time_in_range :: "'a runtime_scheme \<Rightarrow> int \<Rightarrow> bool" where
  "time_in_range env dayNumber =
     (let t = dayNumber * 86400000
      in \<bar>t - local_offset env t\<bar> \<le> 8640000000000000)"

definition newDate :: "'a runtime_scheme \<Rightarrow> jsval \<Rightarrow> jsval \<Rightarrow> jsval \<Rightarrow> date option" where
  "newDate env year monthIndex day =
     (case (finite_of year, finite_of monthIndex, finite_of day) of
        (Some y, Some m, Some d) \<Rightarrow>
          let yi = trunc y;
              yr = (if 0 \<le> yi \<and> yi \<le> 99 then 1900 + yi else yi);
              mi = trunc m;
              di = trunc d;
              ym = yr + mi div 12;
              mn = mi mod 12;
              dayNumber = days_from_civil ym mn 1 + di - 1
          in if time_in_range env dayNumber
             then Some (local_fields env (carry_days ym mn di)) else None
      | _ \<Rightarrow> None)"

section \<open>Calendar/week mapper (utils/helpers.js)\<close>

text \<open>
  \<open>getWeekNumberInMonth(date)\<close>. On an invalid Date the fields are \<open>NaN\<close> and so is
  the result (\<open>None\<close>).
\<close>

definition getWeekNumberInMonth :: "'a runtime_scheme \<Rightarrow> date option \<Rightarrow> int option" where
  "getWeekNumberInMonth env date =
     (case date of
        None \<Rightarrow> None
      | Some dt \<Rightarrow>
          (case newDate env (IntVal (getFullYear dt)) (IntVal (getMonth dt)) (IntVal 1) of
             None \<Rightarrow> None
           | Some firstDay \<Rightarrow>
               let firstDayOfWeek = getDay firstDay;
                   dayOfMonth = getDate dt
               in Some \<lceil>(of_int (firstDayOfWeek + dayOfMonth) :: real) / 7\<rceil>))"

text \<open>
  The template literals \<open>`${year}-${month}-${day}`\<close>, with the loop counter \<open>day\<close>, and
  \<open>`${year}-${month}-week${weekNum}`\<close>.
\<close>

definition mkDateKey :: "'a runtime_scheme \<Rightarrow> jsval \<Rightarrow> jsval \<Rightarrow> int \<Rightarrow> string" where
  "mkDateKey env year month day =
     jsText env year @ ''-'' @ jsText env month @ ''-'' @ show_int day"

definition mkWeekKey :: "'a runtime_scheme \<Rightarrow> jsval \<Rightarrow> jsval \<Rightarrow> int option \<Rightarrow> string" where
  "mkWeekKey env year month weekNum =
     jsText env year @ ''-'' @ jsText env month @ ''-week''
       @ (case weekNum of None \<Rightarrow> ''NaN'' | Some w \<Rightarrow> show_int w)"

text \<open>
  \<open>dateKey.split('-').map(Number)\<close> destructured into year, month and day: a piece
  that is missing is \<open>undefined\<close>, pieces after the third are dropped.
\<close>

definition piece :: "jsval list \<Rightarrow> nat \<Rightarrow> jsval" where
  "piece xs i = (if i < length xs then xs ! i else Undefined)"

definition parseDateKey :: "'a runtime_scheme \<Rightarrow> string \<Rightarrow> jsval \<times> jsval \<times> jsval" where
  "parseDateKey env dateKey =
     (let pieces = map (jsNumber env) (split_on CHR ''-'' dateKey)
      in (piece pieces 0, piece pieces 1, piece pieces 2))"

text \<open>\<open>Math.random\<close> is a real draw \<open>u\<close> with \<open>0 \<le> u < 1\<close>, passed to the operation.\<close>

definition randomInt :: "int \<Rightarrow> int \<Rightarrow> real \<Rightarrow> int" where
  "randomInt lo hi u = \<lfloor>u * of_int (hi - lo + 1)\<rfloor> + lo"

section \<open>Data model: the persisted document\<close>

text \<open>
  The document stored under the key \<open>walktogive_data\<close>. The fields \<open>cheers\<close>,
  \<open>inviteCode\<close> and \<open>profiles\<close> and the presentation fields of a friend are read by
  none of the operations below and are left out.
\<close>

record movement =
  movement_id :: int
  movement_name :: string
  charity :: string
  description :: string
  startDate :: string
  endDate :: string
  creator :: string
  members :: "string list"
  totalRaised :: int
  weeklyContributions :: "int obj"
  createdAt :: string

record friend =
  friend_name :: string
  friend_days :: int
  friend_streak :: int
  friend_earned :: int

record user_progress =
  completedDays :: "bool obj"
  weeklyRewards :: "int obj"
  minReward :: int
  maxReward :: int
  friends :: "friend list"
  movements :: "movement list"
  unlockedBadges :: "string list"

definition defaultData :: user_progress where
  "defaultData =
     \<lparr>completedDays = [], weeklyRewards = [], minReward = 1, maxReward = 5,
      friends = [], movements = [], unlockedBadges = []\<rparr>"

section \<open>Platform model: local storage and the date parser\<close>

text \<open>
  The store holds one document or nothing. Whether \<open>localStorage.setItem\<close> takes a
  document (quota, private mode) is decided by the platform: \<open>storage_accepts\<close>. The
  helper \<open>storage.set\<close> catches the exception of a refused write and returns
  \<open>false\<close>; \<open>storage.get\<close> returns \<open>null\<close> when nothing is stored.

  \<open>new Date(string)\<close> is the platform's parser, \<open>date_parse\<close>: the time value of the
  string in milliseconds, or \<open>None\<close> for an invalid date, whose comparisons are all
  false.
\<close>

record platform = runtime +
  date_parse :: "string \<Rightarrow> int option"
  storage_accepts :: "user_progress \<Rightarrow> bool"

type_synonym storage = "user_progress option"

definition storage_get :: "storage \<Rightarrow> user_progress option" where
  "storage_get st = st"

definition storage_set :: "platform \<Rightarrow> storage \<Rightarrow> user_progress \<Rightarrow> bool \<times> storage" where
  "storage_set env st v = (if storage_accepts env v then (True, Some v) else (False, st))"

text \<open>
  \<open>getData\<close> of each service returns the stored document, or the defaults when nothing
  is stored. A document that lacks a field is represented by the document with the
  default in that field, which is what the merge in the workout service reads from it.
\<close>

definition getData :: "storage \<Rightarrow> user_progress" where
  "getData st = (case storage_get st of None \<Rightarrow> defaultData | Some storedData \<Rightarrow> storedData)"

text \<open>\<open>saveData\<close> calls \<open>storage.set\<close> and drops the boolean it returns.\<close>

definition saveData :: "platform \<Rightarrow> storage \<Rightarrow> user_progress \<Rightarrow> storage" where
  "saveData env st data = snd (storage_set env st data)"

section \<open>Completion engine (services/workout.service.js)\<close>

definition isMovementActiveForDate :: "platform \<Rightarrow> movement \<Rightarrow> string \<Rightarrow> bool" where
  "isMovementActiveForDate env movement dateKey =
     (case (date_parse env dateKey, date_parse env (startDate movement),
            date_parse env (endDate movement)) of
        (Some date, Some start, Some end) \<Rightarrow> start \<le> date \<and> date \<le> end
      | _ \<Rightarrow> False)"

text \<open>
  The loop of \<open>isWeekComplete\<close> over the days of the month. \<open>dayWeek === weekNum\<close> is
  false when either side is \<open>NaN\<close>. With an invalid \<open>new Date(year, month, 0)\<close> the
  bound \<open>daysInMonth\<close> is \<open>NaN\<close> and the loop does not run.
\<close>

definition strict_equal :: "int option \<Rightarrow> int option \<Rightarrow> bool" where
  "strict_equal a b = (case (a, b) of (Some x, Some y) \<Rightarrow> x = y | _ \<Rightarrow> False)"

fun count_week_days ::
    "'a runtime_scheme \<Rightarrow> bool obj \<Rightarrow> jsval \<Rightarrow> jsval \<Rightarrow> int option \<Rightarrow> int list \<Rightarrow> nat \<Rightarrow> nat" where
  "count_week_days env cd year month weekNum [] count = count"
| "count_week_days env cd year month weekNum (day # days) count =
     (let dayWeek = getWeekNumberInMonth env
                      (newDate env year (minus_one env month) (IntVal day))
      in if strict_equal dayWeek weekNum then
           if truthy_flag (obj_get cd (mkDateKey env year month day))
           then count_week_days env cd year month weekNum days (count + 1)
           else count_week_days env cd year month weekNum days count
         else count_week_days env cd year month weekNum days count)"

definition month_days :: "'a runtime_scheme \<Rightarrow> jsval \<Rightarrow> jsval \<Rightarrow> int list" where
  "month_days env year month =
     (case newDate env year month (IntVal 0) of
        None \<Rightarrow> []
      | Some lastDay \<Rightarrow> [1..getDate lastDay])"

definition isWeekComplete ::
    "'a runtime_scheme \<Rightarrow> user_progress \<Rightarrow> jsval \<Rightarrow> jsval \<Rightarrow> int option \<Rightarrow> bool" where
  "isWeekComplete env data year month weekNum =
     (7 \<le> count_week_days env (completedDays data) year month weekNum
            (month_days env year month) 0)"

text \<open>
  The credit to one movement, the same four statements in \<open>completeWorkout\<close> and in
  \<open>addMovementContribution\<close>: a missing or zero entry is set to 0, then the entry and
  \<open>totalRaised\<close> are increased.
\<close>

definition add_contribution :: "string \<Rightarrow> int \<Rightarrow> movement \<Rightarrow> movement" where
  "add_contribution weekKey amount movement =
     (let wc0 = weeklyContributions movement;
          wc1 = (if \<not> truthy_num (obj_get wc0 weekKey) then obj_set wc0 weekKey 0 else wc0);
          wc2 = obj_set wc1 weekKey
                  ((case obj_get wc1 weekKey of None \<Rightarrow> 0 | Some c \<Rightarrow> c) + amount)
      in movement\<lparr>weeklyContributions := wc2, totalRaised := totalRaised movement + amount\<rparr>)"

text \<open>The body of the \<open>forEach\<close> over the movements, for one movement.\<close>

definition contribute :: "platform \<Rightarrow> string \<Rightarrow> string \<Rightarrow> int \<Rightarrow> movement \<Rightarrow> movement" where
  "contribute env dateKey weekKey amount movement =
     (if ''You'' \<in> set (members movement) \<and> isMovementActiveForDate env movement dateKey
      then add_contribution weekKey amount movement
      else movement)"

record completion_result =
  success :: bool
  weekCompleted :: bool
  reward :: "int option"

text \<open>
  The week number and the week key that \<open>completeWorkout\<close> computes from a date key.
\<close>

definition weekNumOf :: "'a runtime_scheme \<Rightarrow> string \<Rightarrow> int option" where
  "weekNumOf env dateKey =
     (case parseDateKey env dateKey of
        (year, month, day) \<Rightarrow>
          getWeekNumberInMonth env (newDate env year (minus_one env month) day))"

definition weekKeyOf :: "'a runtime_scheme \<Rightarrow> string \<Rightarrow> string" where
  "weekKeyOf env dateKey =
     (case parseDateKey env dateKey of
        (year, month, day) \<Rightarrow> mkWeekKey env year month (weekNumOf env dateKey))"

text \<open>
  The in-memory part of \<open>completeWorkout\<close>: the document after the mutations, with
  \<open>weekCompleted\<close> and \<open>reward\<close>.
\<close>

definition completeWorkout_data ::
    "platform \<Rightarrow> real \<Rightarrow> string \<Rightarrow> user_progress \<Rightarrow> user_progress \<times> bool \<times> int option" where
  "completeWorkout_data env u dateKey data0 =
     (let data = data0\<lparr>completedDays := obj_set (completedDays data0) dateKey True\<rparr>
      in case parseDateKey env dateKey of
           (year, month, day) \<Rightarrow>
             let weekNum = getWeekNumberInMonth env (newDate env year (minus_one env month) day);
                 weekKey = mkWeekKey env year month weekNum;
                 weekCompleted = isWeekComplete env data year month weekNum
             in if weekCompleted \<and> \<not> truthy_num (obj_get (weeklyRewards data) weekKey) then
                  let reward = randomInt (minReward data) (maxReward data) u
                  in (data\<lparr>weeklyRewards := obj_set (weeklyRewards data) weekKey reward,
                            movements := map (contribute env dateKey weekKey reward)
                                           (movements data)\<rparr>,
                      weekCompleted, Some reward)
                else (data, weekCompleted, None))"

definition completeWorkout ::
    "platform \<Rightarrow> real \<Rightarrow> string \<Rightarrow> storage \<Rightarrow> completion_result \<times> storage" where
  "completeWorkout env u dateKey st =
     (case completeWorkout_data env u dateKey (getData st) of
        (data, completed, issued) \<Rightarrow>
          (\<lparr>success = True, weekCompleted = completed, reward = issued\<rparr>,
           saveData env st data))"

fun streak_loop :: "int obj \<Rightarrow> string list \<Rightarrow> nat \<Rightarrow> nat" where
  "streak_loop wr [] streak = streak"
| "streak_loop wr (key # keys) streak =
     (if truthy_num (obj_get wr key) then streak_loop wr keys (streak + 1) else streak)"

definition getCurrentStreak :: "storage \<Rightarrow> nat" where
  "getCurrentStreak st =
     (let data = getData st;
          weekKeys = rev (sort (obj_keys (weeklyRewards data)))
      in streak_loop (weeklyRewards data) weekKeys 0)"

definition getTotalCompletedDays :: "storage \<Rightarrow> nat" where
  "getTotalCompletedDays st = length (obj_keys (completedDays (getData st)))"

definition getTotalEarnings :: "storage \<Rightarrow> int" where
  "getTotalEarnings st = foldl (\<lambda>sum val. sum + val) 0 (obj_values (weeklyRewards (getData st)))"

definition updateRewardRange :: "platform \<Rightarrow> int \<Rightarrow> int \<Rightarrow> storage \<Rightarrow> bool \<times> storage" where
  "updateRewardRange env lo hi st =
     (if lo > hi \<or> lo < 1 then (False, st)
      else let data = getData st
           in (True, saveData env st (data\<lparr>minReward := lo, maxReward := hi\<rparr>)))"

section \<open>Badge engine (services/badge.service.js)\<close>

text \<open>
  A badge definition with the fields the engine reads; the icon and the description
  are presentation only. \<open>progress[badge.type]\<close> is a function of the badge type.
\<close>

datatype badge_type = Days | Weeks | Streak | Earnings | Movements | Friends

record badge =
  badge_id :: string
  badge_name :: string
  requirement :: int
  badge_type :: badge_type

definition BADGE_DEFINITIONS :: "badge list" where
  "BADGE_DEFINITIONS =
     [\<lparr>badge_id = ''first_day'', badge_name = ''First Step'', requirement = 1, badge_type = Days\<rparr>,
      \<lparr>badge_id = ''week_warrior'', badge_name = ''Week Warrior'', requirement = 1, badge_type = Weeks\<rparr>,
      \<lparr>badge_id = ''streak_starter'', badge_name = ''Streak Starter'', requirement = 3, badge_type = Streak\<rparr>,
      \<lparr>badge_id = ''consistent_champion'', badge_name = ''Consistent Champion'', requirement = 6, badge_type = Streak\<rparr>,
      \<lparr>badge_id = ''unstoppable'', badge_name = ''Unstoppable Force'', requirement = 12, badge_type = Streak\<rparr>,
      \<lparr>badge_id = ''month_master'', badge_name = ''Month Master'', requirement = 30, badge_type = Days\<rparr>,
      \<lparr>badge_id = ''hundred_club'', badge_name = ''100 Club'', requirement = 100, badge_type = Days\<rparr>,
      \<lparr>badge_id = ''charity_champion'', badge_name = ''Charity Champion'', requirement = 50, badge_type = Earnings\<rparr>,
      \<lparr>badge_id = ''generous_giver'', badge_name = ''Generous Giver'', requirement = 100, badge_type = Earnings\<rparr>,
      \<lparr>badge_id = ''movement_maker'', badge_name = ''Movement Maker'', requirement = 1, badge_type = Movements\<rparr>,
      \<lparr>badge_id = ''social_butterfly'', badge_name = ''Social Butterfly'', requirement = 5, badge_type = Friends\<rparr>,
      \<lparr>badge_id = ''year_long'', badge_name = ''Year-Long Warrior'', requirement = 365, badge_type = Days\<rparr>]"

text \<open>
  \<open>getCurrentProgress\<close> takes three metrics from the workout service, which reads the
  store again, and three from the document the badge service has loaded.
\<close>

definition getCurrentProgress :: "storage \<Rightarrow> user_progress \<Rightarrow> badge_type \<Rightarrow> int" where
  "getCurrentProgress st data =
     (let totalDays = getTotalCompletedDays st;
          totalEarnings = getTotalEarnings st;
          currentStreak = getCurrentStreak st;
          totalWeeks = length (obj_keys (weeklyRewards data));
          totalMovements = length (filter (\<lambda>m. creator m = ''You'') (movements data));
          totalFriends = length (friends data)
      in (\<lambda>t. case t of
            Days \<Rightarrow> int totalDays
          | Weeks \<Rightarrow> int totalWeeks
          | Streak \<Rightarrow> int currentStreak
          | Earnings \<Rightarrow> totalEarnings
          | Movements \<Rightarrow> int totalMovements
          | Friends \<Rightarrow> int totalFriends))"

definition shouldUnlockBadge :: "badge \<Rightarrow> (badge_type \<Rightarrow> int) \<Rightarrow> bool" where
  "shouldUnlockBadge b progress =
     (let current = progress (badge_type b) in current \<ge> requirement b)"

text \<open>
  The \<open>forEach\<close> over the definitions; it pushes onto \<open>data.unlockedBadges\<close> and onto
  \<open>newlyUnlocked\<close>.
\<close>

fun unlock_loop ::
    "(badge_type \<Rightarrow> int) \<Rightarrow> badge list \<Rightarrow> string list \<Rightarrow> badge list \<Rightarrow> string list \<times> badge list" where
  "unlock_loop progress [] unlocked newlyUnlocked = (unlocked, newlyUnlocked)"
| "unlock_loop progress (b # bs) unlocked newlyUnlocked =
     (if badge_id b \<in> set unlocked then unlock_loop progress bs unlocked newlyUnlocked
      else if shouldUnlockBadge b progress then
        unlock_loop progress bs (unlocked @ [badge_id b]) (newlyUnlocked @ [b])
      else unlock_loop progress bs unlocked newlyUnlocked)"

definition checkAndUnlockBadges :: "platform \<Rightarrow> storage \<Rightarrow> badge list \<times> storage" where
  "checkAndUnlockBadges env st =
     (let data = getData st;
          progress = getCurrentProgress st data
      in case unlock_loop progress BADGE_DEFINITIONS (unlockedBadges data) [] of
           (unlocked, newlyUnlocked) \<Rightarrow>
             (newlyUnlocked,
              if newlyUnlocked \<noteq> [] then saveData env st (data\<lparr>unlockedBadges := unlocked\<rparr>)
              else st))"

section \<open>Movement store (services/movement.service.js, utils/validation.js)\<close>

text \<open>Strings are taken as ASCII: \<open>trim\<close> strips blanks and control blanks.\<close>

definition is_space :: "char \<Rightarrow> bool" where
  "is_space c = (c \<in> set [CHR '' '', CHR 0x09, CHR 0x0A, CHR 0x0B, CHR 0x0C, CHR 0x0D])"

definition trim :: "string \<Rightarrow> string" where
  "trim s = rev (dropWhile is_space (rev (dropWhile is_space s)))"

text \<open>Each validator returns the message of the failed check, or \<open>None\<close> when valid.\<close>

definition isValidMovementName :: "string \<Rightarrow> string option" where
  "isValidMovementName name =
     (if name = [] \<or> length (trim name) = 0 then Some ''Movement name cannot be empty''
      else if length (trim name) < 3 then Some ''Movement name must be at least 3 characters''
      else if length (trim name) > 100 then Some ''Movement name must be less than 100 characters''
      else None)"

definition isValidMovementDescription :: "string \<Rightarrow> string option" where
  "isValidMovementDescription desc =
     (if desc = [] \<or> length (trim desc) = 0 then Some ''Description cannot be empty''
      else if length (trim desc) < 10 then Some ''Description must be at least 10 characters''
      else if length (trim desc) > 1000 then Some ''Description must be less than 1000 characters''
      else None)"

definition isValidDateRange :: "platform \<Rightarrow> string \<Rightarrow> string \<Rightarrow> string option" where
  "isValidDateRange env start end =
     (case (date_parse env start, date_parse env end) of
        (Some s, Some e) \<Rightarrow>
          if e < s then Some ''End date must be after start date'' else None
      | _ \<Rightarrow> Some ''Invalid date format'')"

text \<open>
  \<open>createMovement\<close> returns the error message, or the movement it stored. The clock
  values \<open>Date.now()\<close> and \<open>new Date().toISOString()\<close> are inputs. The last step calls
  the badge engine on the store.
\<close>

definition createMovement ::
    "platform \<Rightarrow> int \<Rightarrow> string \<Rightarrow> string \<Rightarrow> string \<Rightarrow> string \<Rightarrow> string \<Rightarrow> string \<Rightarrow> storage
      \<Rightarrow> (string + movement) \<times> storage" where
  "createMovement env now nowIso name charityName desc start end st =
     (case isValidMovementName name of
        Some message \<Rightarrow> (Inl message, st)
      | None \<Rightarrow>
     (case isValidMovementDescription desc of
        Some message \<Rightarrow> (Inl message, st)
      | None \<Rightarrow>
     (case isValidDateRange env start end of
        Some message \<Rightarrow> (Inl message, st)
      | None \<Rightarrow>
     (if charityName = [] then (Inl ''Charity required'', st)
      else
        let data = getData st;
            m = \<lparr>movement_id = now, movement_name = name, charity = charityName,
                 description = desc, startDate = start, endDate = end,
                 creator = ''You'', members = [''You''], totalRaised = 0,
                 weeklyContributions = [], createdAt = nowIso\<rparr>;
            st1 = saveData env st (data\<lparr>movements := movements data @ [m]\<rparr>);
            st2 = snd (checkAndUnlockBadges env st1)
        in (Inr m, st2)))))"

text \<open>
  \<open>find\<close> returns the first movement with the identifier, and the mutation that
  follows changes that element of the list.
\<close>

fun update_first :: "('a \<Rightarrow> bool) \<Rightarrow> ('a \<Rightarrow> 'a) \<Rightarrow> 'a list \<Rightarrow> 'a list" where
  "update_first p f [] = []"
| "update_first p f (x # xs) = (if p x then f x # xs else x # update_first p f xs)"

definition isMovementActive :: "platform \<Rightarrow> int \<Rightarrow> movement \<Rightarrow> bool" where
  "isMovementActive env now movement =
     (case (date_parse env (startDate movement), date_parse env (endDate movement)) of
        (Some start, Some end) \<Rightarrow> start \<le> now \<and> now \<le> end
      | _ \<Rightarrow> False)"

definition joinMovement :: "platform \<Rightarrow> int \<Rightarrow> storage \<Rightarrow> bool \<times> storage" where
  "joinMovement env movementId st =
     (let data = getData st
      in case find (\<lambda>m. movement_id m = movementId) (movements data) of
           None \<Rightarrow> (False, st)
         | Some movement \<Rightarrow>
             if ''You'' \<in> set (members movement) then (False, st)
             else (True,
                   saveData env st
                     (data\<lparr>movements :=
                        update_first (\<lambda>m. movement_id m = movementId)
                          (\<lambda>m. m\<lparr>members := members m @ [''You'']\<rparr>) (movements data)\<rparr>)))"

definition leaveMovement :: "platform \<Rightarrow> int \<Rightarrow> storage \<Rightarrow> bool \<times> storage" where
  "leaveMovement env movementId st =
     (let data = getData st
      in case find (\<lambda>m. movement_id m = movementId) (movements data) of
           None \<Rightarrow> (False, st)
         | Some movement \<Rightarrow>
             if ''You'' \<notin> set (members movement) then (False, st)
             else (True,
                   saveData env st
                     (data\<lparr>movements :=
                        update_first (\<lambda>m. movement_id m = movementId)
                          (\<lambda>m. m\<lparr>members := remove1 ''You'' (members m)\<rparr>) (movements data)\<rparr>)))"

definition addMovementContribution :: "platform \<Rightarrow> int \<Rightarrow> string \<Rightarrow> int \<Rightarrow> storage \<Rightarrow> storage" where
  "addMovementContribution env movementId weekKey amount st =
     (let data = getData st
      in case find (\<lambda>m. movement_id m = movementId) (movements data) of
           None \<Rightarrow> st
         | Some movement \<Rightarrow>
             if ''You'' \<notin> set (members movement) then st
             else saveData env st
                    (data\<lparr>movements :=
                       update_first (\<lambda>m. movement_id m = movementId)
                         (add_contribution weekKey amount) (movements data)\<rparr>))"

text \<open>
  \<open>updateMovementContributions\<close> walks the movements it loaded first and calls
  \<open>addMovementContribution\<close>, which loads and saves the store each time.
\<close>

fun contributions_loop ::
    "platform \<Rightarrow> int \<Rightarrow> string \<Rightarrow> int \<Rightarrow> movement list \<Rightarrow> storage \<Rightarrow> storage" where
  "contributions_loop env now weekKey amount [] st = st"
| "contributions_loop env now weekKey amount (m # ms) st =
     (if ''You'' \<in> set (members m) \<and> isMovementActive env now m then
        contributions_loop env now weekKey amount ms
          (addMovementContribution env (movement_id m) weekKey amount st)
      else contributions_loop env now weekKey amount ms st)"

definition updateMovementContributions :: "platform \<Rightarrow> int \<Rightarrow> string \<Rightarrow> int \<Rightarrow> storage \<Rightarrow> storage" where
  "updateMovementContributions env now weekKey amount st =
     contributions_loop env now weekKey amount (movements (getData st)) st"

section \<open>Operations on the store\<close>

datatype operation =
    CompleteWorkout real string
  | UpdateRewardRange int int
  | CheckAndUnlockBadges
  | CreateMovement int string string string string string string
  | JoinMovement int
  | LeaveMovement int
  | AddMovementContribution int string int
  | UpdateMovementContributions int string int

fun perform :: "platform \<Rightarrow> operation \<Rightarrow> storage \<Rightarrow> storage" where
  "perform env (CompleteWorkout u dateKey) st = snd (completeWorkout env u dateKey st)"
| "perform env (UpdateRewardRange lo hi) st = snd (updateRewardRange env lo hi st)"
| "perform env CheckAndUnlockBadges st = snd (checkAndUnlockBadges env st)"
| "perform env (CreateMovement now nowIso name charityName desc start end) st =
     snd (createMovement env now nowIso name charityName desc start end st)"
| "perform env (JoinMovement movementId) st = snd (joinMovement env movementId st)"
| "perform env (LeaveMovement movementId) st = snd (leaveMovement env movementId st)"
| "perform env (AddMovementContribution movementId weekKey amount) st =
     addMovementContribution env movementId weekKey amount st"
| "perform env (UpdateMovementContributions now weekKey amount) st =
     updateMovementContributions env now weekKey amount st"

fun run :: "platform \<Rightarrow> operation list \<Rightarrow> storage \<Rightarrow> storage" where
  "run env [] st = st"
| "run env (op # ops) st = run env ops (perform env op st)"

section \<open>Example platforms and documents\<close>

text \<open>
  The calendar date written in a string \<open>Y-M-D\<close> of three decimal numerals, padded or
  not, and its day number.
\<close>

definition civil_of :: "string \<Rightarrow> (int \<times> int \<times> int) option" where
  "civil_of s =
     (case map (digits_value 0) (split_on CHR ''-'' s) of
        [Some y, Some m, Some d] \<Rightarrow> Some (y, m, d)
      | _ \<Rightarrow> None)"

definition day_number :: "int \<times> int \<times> int \<Rightarrow> int" where
  "day_number c = (case c of (y, m, d) \<Rightarrow> days_from_civil y (m - 1) d)"

text \<open>
  An example parser in a zone at a fixed offset from UTC, after the engines that read
  the date-only ISO form \<open>YYYY-MM-DD\<close> as midnight UTC and any other \<open>Y-M-D\<close> as local
  midnight.
\<close>

definition iso_date_only :: "string \<Rightarrow> bool" where
  "iso_date_only s =
     (length s = 10 \<and> s ! 4 = CHR ''-'' \<and> s ! 7 = CHR ''-''
      \<and> list_all (\<lambda>c. digit_of c \<noteq> None) (take 4 s @ take 2 (drop 5 s) @ drop 8 s))"

definition zone_date_parse :: "int \<Rightarrow> string \<Rightarrow> int option" where
  "zone_date_parse offset s =
     (case civil_of s of
        None \<Rightarrow> None
      | Some c \<Rightarrow>
          if iso_date_only s then Some (day_number c * 86400000)
          else Some (day_number c * 86400000 - offset))"

text \<open>
  Example platforms, which read short decimal numerals only: one on UTC whose store
  takes every write, one on UTC whose store is full, one an hour east of UTC and one
  five hours west of it.
\<close>

definition zone_platform :: "int \<Rightarrow> bool \<Rightarrow> platform" where
  "zone_platform offset accepts =
     \<lparr>number_of = (\<lambda>s. NaN), text_of = (\<lambda>r. ''''), rounded = (\<lambda>r. r),
      local_offset = (\<lambda>t. offset), local_fields = (\<lambda>dt. dt),
      date_parse = zone_date_parse offset,
      storage_accepts = (\<lambda>d. accepts)\<rparr>"

definition open_platform :: platform where
  "open_platform = zone_platform 0 True"

definition full_platform :: platform where
  "full_platform = zone_platform 0 False"

definition berlin_platform :: platform where
  "berlin_platform = zone_platform 3600000 True"

definition new_york_platform :: platform where
  "new_york_platform = zone_platform (- 18000000) True"

text \<open>
  A document with six days of the second week of January 2026 (the month starts on a
  Thursday, so that week is the 4th to the 10th).
\<close>

definition six_days :: user_progress where
  "six_days =
     defaultData\<lparr>completedDays :=
       [(''2026-1-4'', True), (''2026-1-5'', True), (''2026-1-6'', True),
        (''2026-1-7'', True), (''2026-1-8'', True), (''2026-1-9'', True)]\<rparr>"

section \<open>Specification-side notions\<close>

text \<open>
  The week bucket that the code scans: the days of the month it walks whose week
  number is \<open>weekNum\<close>. The marked days of a set of days: those whose date key
  \<open>year-month-day\<close> is marked in \<open>completedDays\<close>.
\<close>

definition week_bucket :: "'a runtime_scheme \<Rightarrow> jsval \<Rightarrow> jsval \<Rightarrow> int option \<Rightarrow> int set" where
  "week_bucket env year month weekNum =
     {day. day \<in> set (month_days env year month)
           \<and> strict_equal
                (getWeekNumberInMonth env
                   (newDate env year (minus_one env month) (IntVal day))) weekNum}"

definition marked_days ::
    "'a runtime_scheme \<Rightarrow> user_progress \<Rightarrow> jsval \<Rightarrow> jsval \<Rightarrow> int set \<Rightarrow> int set" where
  "marked_days env data year month days =
     {day. day \<in> days
           \<and> truthy_flag (obj_get (completedDays data) (mkDateKey env year month day))}"

text \<open>
  The calendar: the Sunday-based weekday of day 1 of the month \<open>(year, month)\<close>, the
  week number \<open>ceil((firstWeekdayOfMonth + dayOfMonth) / 7)\<close> of a day of that month,
  and the week bucket, the days of the month with a given week number.
\<close>

definition first_weekday :: "int \<Rightarrow> int \<Rightarrow> int" where
  "first_weekday year month =
     getDay \<lparr>getFullYear = year, getMonth = month - 1, getDate = 1\<rparr>"

definition calendar_week :: "int \<Rightarrow> int \<Rightarrow> int \<Rightarrow> int" where
  "calendar_week year month day = \<lceil>(of_int (first_weekday year month + day) :: real) / 7\<rceil>"

definition calendar_bucket :: "int \<Rightarrow> int \<Rightarrow> int \<Rightarrow> int set" where
  "calendar_bucket year month weekNum =
     {day. 1 \<le> day \<and> day \<le> month_length year (month - 1)
           \<and> calendar_week year month day = weekNum}"

text \<open>
  The year of the Date that the constructor builds for a year number, and the months
  that the platform represents: the Date of each day of the month has the fields of
  that day, and the one \<open>isWeekComplete\<close> takes the length of the month from has those
  of the last day of the month.
\<close>

definition date_year :: "int \<Rightarrow> int" where
  "date_year year = (if 0 \<le> year \<and> year \<le> 99 then 1900 + year else year)"

definition month_representable :: "'a runtime_scheme \<Rightarrow> int \<Rightarrow> int \<Rightarrow> bool" where
  "month_representable env year month =
     (newDate env (IntVal year) (IntVal month) (IntVal 0) =
        Some \<lparr>getFullYear = date_year year, getMonth = month - 1,
              getDate = month_length (date_year year) (month - 1)\<rparr>
      \<and> list_all
           (\<lambda>day. newDate env (IntVal year) (IntVal (month - 1)) (IntVal day) =
                    Some \<lparr>getFullYear = date_year year, getMonth = month - 1, getDate = day\<rparr>)
           [1..month_length (date_year year) (month - 1)])"

text \<open>
  A platform whose local time is within a day of UTC and whose zone skips no local
  day.
\<close>

definition plain_zone :: "'a runtime_scheme \<Rightarrow> bool" where
  "plain_zone env =
     ((\<forall>t. \<bar>local_offset env t\<bar> \<le> 86400000) \<and> (\<forall>dt. local_fields env dt = dt))"

text \<open>The document after the first statement of \<open>completeWorkout\<close>.\<close>

definition mark_day :: "string \<Rightarrow> user_progress \<Rightarrow> user_progress" where
  "mark_day dateKey data = data\<lparr>completedDays := obj_set (completedDays data) dateKey True\<rparr>"

definition seven_days :: "bool obj" where
  "seven_days =
     [(''2026-1-4'', True), (''2026-1-5'', True), (''2026-1-6'', True),
      (''2026-1-7'', True), (''2026-1-8'', True), (''2026-1-9'', True),
      (''2026-1-10'', True)]"

text \<open>
  Two documents outside the calendar the platform represents as written: six days of
  January of the year 50, and six days of January of the year 300000.
\<close>

definition year_50_days :: user_progress where
  "year_50_days =
     defaultData\<lparr>completedDays :=
       [(''50-1-1'', True), (''50-1-2'', True), (''50-1-3'', True),
        (''50-1-4'', True), (''50-1-5'', True), (''50-1-6'', True)]\<rparr>"

definition year_300000_days :: user_progress where
  "year_300000_days =
     defaultData\<lparr>completedDays :=
       [(''300000-1-2'', True), (''300000-1-3'', True), (''300000-1-4'', True),
        (''300000-1-5'', True), (''300000-1-6'', True), (''300000-1-7'', True)]\<rparr>"

text \<open>
  Invariants of the reward ledger: every stored reward is positive, and the bounds
  satisfy \<open>1 \<le> minReward \<le> maxReward\<close>.
\<close>

definition positive_entry :: "string \<times> int \<Rightarrow> bool" where
  "positive_entry e = (0 < snd e)"

definition rewards_positive :: "user_progress \<Rightarrow> bool" where
  "rewards_positive data = list_all positive_entry (weeklyRewards data)"

definition range_ok :: "user_progress \<Rightarrow> bool" where
  "range_ok data = (1 \<le> minReward data \<and> minReward data \<le> maxReward data)"

text \<open>
  A sequence of \<open>completeWorkout\<close> calls, each with its draw and its date key: the
  store after the sequence, and the number of calls after which the stored entry of
  the week key \<open>k\<close> differs from the entry before the call.
\<close>

definition unit_draw :: "real \<times> string \<Rightarrow> bool" where
  "unit_draw c = (0 \<le> fst c \<and> fst c < 1)"

fun completions :: "platform \<Rightarrow> (real \<times> string) list \<Rightarrow> storage \<Rightarrow> storage" where
  "completions env [] st = st"
| "completions env (c # cs) st =
     completions env cs (snd (completeWorkout env (fst c) (snd c) st))"

definition stored_reward :: "storage \<Rightarrow> string \<Rightarrow> int option" where
  "stored_reward st k = obj_get (weeklyRewards (getData st)) k"

fun reward_writes :: "platform \<Rightarrow> string \<Rightarrow> (real \<times> string) list \<Rightarrow> storage \<Rightarrow> nat" where
  "reward_writes env k [] st = 0"
| "reward_writes env k (c # cs) st =
     (let st' = snd (completeWorkout env (fst c) (snd c) st)
      in (if stored_reward st' k \<noteq> stored_reward st k then 1 else 0)
         + reward_writes env k cs st')"

definition zero_floor_doc :: user_progress where
  "zero_floor_doc =
     six_days\<lparr>weeklyRewards := [(''2025-12-week2'', 4)], minReward := 0, maxReward := 1\<rparr>"

definition rewarded_doc :: user_progress where
  "rewarded_doc = six_days\<lparr>weeklyRewards := [(''2025-12-week2'', 4)]\<rparr>"

text \<open>The example documents after a seventh-day call.\<close>

definition rewarded_doc_1 :: user_progress where
  "rewarded_doc_1 =
     rewarded_doc\<lparr>completedDays := seven_days,
       weeklyRewards := [(''2025-12-week2'', 4), (''2026-1-week2'', 3)]\<rparr>"

definition zero_floor_doc_1 :: user_progress where
  "zero_floor_doc_1 =
     zero_floor_doc\<lparr>completedDays := seven_days,
       weeklyRewards := [(''2025-12-week2'', 4), (''2026-1-week2'', 0)]\<rparr>"

definition zero_floor_doc_2 :: user_progress where
  "zero_floor_doc_2 =
     zero_floor_doc\<lparr>completedDays := seven_days,
       weeklyRewards := [(''2025-12-week2'', 4), (''2026-1-week2'', 1)]\<rparr>"

text \<open>
  The window of a movement at calendar-date granularity: the calendar date written in
  the date key is not before the one written in \<open>startDate\<close> and not after the one
  written in \<open>endDate\<close>.
\<close>

definition window_contains :: "movement \<Rightarrow> string \<Rightarrow> bool" where
  "window_contains m dateKey =
     (case (civil_of dateKey, civil_of (startDate m), civil_of (endDate m)) of
        (Some d, Some s, Some e) \<Rightarrow> day_number s \<le> day_number d \<and> day_number d \<le> day_number e
      | _ \<Rightarrow> False)"

text \<open>The ledger of a movement is consistent when its total is the sum of its entries.\<close>

definition total_consistent :: "movement \<Rightarrow> bool" where
  "total_consistent m = (totalRaised m = sum_list (obj_values (weeklyContributions m)))"

definition totals_consistent :: "storage \<Rightarrow> bool" where
  "totals_consistent st = list_all total_consistent (movements (getData st))"

text \<open>The local user is listed at most once in a movement.\<close>

definition you_once :: "movement \<Rightarrow> bool" where
  "you_once m = (count_list (members m) ''You'' \<le> 1)"

definition members_ok :: "storage \<Rightarrow> bool" where
  "members_ok st = list_all you_once (movements (getData st))"

text \<open>Example movements and the documents that hold them.\<close>

definition walkers :: movement where
  "walkers =
     \<lparr>movement_id = 17, movement_name = ''Walkers'', charity = ''Red Cross'',
      description = ''Walk every day'', startDate = ''2026-01-01'', endDate = ''2026-01-31'',
      creator = ''You'', members = [''You'', ''Ann''], totalRaised = 4,
      weeklyContributions = [(''2025-12-week2'', 4)], createdAt = ''2025-12-01''\<rparr>"

definition strangers :: movement where
  "strangers = walkers\<lparr>movement_id := 18, movement_name := ''Strangers'', creator := ''Ann'',
     members := [''Ann'']\<rparr>"

definition late_starters :: movement where
  "late_starters = walkers\<lparr>movement_id := 19, movement_name := ''Late starters'',
     startDate := ''2026-01-11'', members := [''You'']\<rparr>"

definition campaign_doc :: user_progress where
  "campaign_doc = rewarded_doc\<lparr>movements := [walkers, strangers, late_starters]\<rparr>"

definition campaign_doc_1 :: user_progress where
  "campaign_doc_1 =
     rewarded_doc_1\<lparr>movements :=
       [walkers\<lparr>weeklyContributions := [(''2025-12-week2'', 4), (''2026-1-week2'', 3)],
                totalRaised := 7\<rparr>,
        strangers, late_starters]\<rparr>"

text \<open>
  A movement that starts on 2026-01-10 and one that ends on that day, each in a
  document of its own, and these documents after a seventh-day call that credits no
  movement.
\<close>

definition starting :: movement where
  "starting = walkers\<lparr>movement_id := 20, movement_name := ''Starting'',
     startDate := ''2026-01-10''\<rparr>"

definition ending :: movement where
  "ending = walkers\<lparr>movement_id := 21, movement_name := ''Ending'',
     endDate := ''2026-01-10''\<rparr>"

definition starting_doc :: user_progress where
  "starting_doc = rewarded_doc\<lparr>movements := [starting]\<rparr>"

definition starting_doc_1 :: user_progress where
  "starting_doc_1 = rewarded_doc_1\<lparr>movements := [starting]\<rparr>"

definition ending_doc :: user_progress where
  "ending_doc = rewarded_doc\<lparr>movements := [ending]\<rparr>"

definition ending_doc_1 :: user_progress where
  "ending_doc_1 = rewarded_doc_1\<lparr>movements := [ending]\<rparr>"

definition new_walkers :: movement where
  "new_walkers =
     \<lparr>movement_id = 17, movement_name = ''Walkers'', charity = ''Red Cross'',
      description = ''Walk every day'', startDate = ''2026-01-01'', endDate = ''2026-01-31'',
      creator = ''You'', members = [''You''], totalRaised = 0,
      weeklyContributions = [], createdAt = ''2026-01-01T08:00''\<rparr>"

definition created_doc :: user_progress where
  "created_doc = defaultData\<lparr>movements := [new_walkers], unlockedBadges := [''movement_maker'']\<rparr>"

definition left_doc :: user_progress where
  "left_doc = created_doc\<lparr>movements := [new_walkers\<lparr>members := []\<rparr>]\<rparr>"

definition founded_doc :: user_progress where
  "founded_doc = defaultData\<lparr>movements := [new_walkers]\<rparr>"

text \<open>
  The ledger invariant of a store, and the operations whose draws lie in \<open>[0, 1)\<close>.
\<close>

definition unit_draws :: "operation \<Rightarrow> bool" where
  "unit_draws action = (case action of CompleteWorkout u dateKey \<Rightarrow> 0 \<le> u \<and> u < 1 | _ \<Rightarrow> True)"

definition ledger_ok :: "storage \<Rightarrow> bool" where
  "ledger_ok st = (rewards_positive (getData st) \<and> range_ok (getData st))"

section \<open>Basic facts\<close>

lemma getData_saveData:
  "getData (saveData env st data) = (if storage_accepts env data then data else getData st)"
  by (simp add: getData_def saveData_def storage_set_def storage_get_def)

lemma saveData_refused: "\<not> storage_accepts env data \<Longrightarrow> saveData env st data = st"
  by (simp add: saveData_def storage_set_def)

lemma saveData_taken: "storage_accepts env data \<Longrightarrow> saveData env st data = Some data"
  by (simp add: saveData_def storage_set_def)

lemma randomInt_bounds:
  assumes "lo \<le> hi" and "0 \<le> u" and "u < 1"
  shows "lo \<le> randomInt lo hi u \<and> randomInt lo hi u \<le> hi"
proof -
  let ?n = "hi - lo + 1"
  have n: "0 < (of_int ?n :: real)" using assms(1) by simp
  have "0 \<le> u * of_int ?n" using assms(2) n by simp
  then have lower: "0 \<le> \<lfloor>u * of_int ?n\<rfloor>" by simp
  have "u * of_int ?n < of_int ?n" using assms(3) n by simp
  then have "\<lfloor>u * of_int ?n\<rfloor> < ?n" by (rule iffD2 [OF floor_less_iff])
  with lower show ?thesis by (simp add: randomInt_def)
qed

text \<open>What a call that issues a reward has done to the document.\<close>

lemma completeWorkout_data_reward:
  assumes "completeWorkout_data env u dateKey data0 = (data, wc, Some r)"
  shows "r = randomInt (minReward data0) (maxReward data0) u
    \<and> \<not> truthy_num (obj_get (weeklyRewards data0) (weekKeyOf env dateKey))
    \<and> weeklyRewards data = obj_set (weeklyRewards data0) (weekKeyOf env dateKey) r
    \<and> movements data = map (contribute env dateKey (weekKeyOf env dateKey) r) (movements data0)
    \<and> wc"
  using assms
  by (auto simp: completeWorkout_data_def weekKeyOf_def weekNumOf_def Let_def
      split: prod.splits if_splits)

lemma completeWorkout_reward:
  "reward (fst (completeWorkout env u dateKey st)) =
     snd (snd (completeWorkout_data env u dateKey (getData st)))"
  by (simp add: completeWorkout_def split: prod.splits)

lemma completeWorkout_store:
  "snd (completeWorkout env u dateKey st) =
     saveData env st (fst (completeWorkout_data env u dateKey (getData st)))"
  by (simp add: completeWorkout_def split: prod.splits)

lemma obj_get_obj_set: "obj_get (obj_set ob k v) k' = (if k' = k then Some v else obj_get ob k')"
  by (simp add: obj_get_def obj_set_def update_conv')

section \<open>Numbers\<close>

lemma trunc_of_int: "trunc (of_int n) = n"
  by (simp add: trunc_def)

lemma finite_of_IntVal: "finite_of (IntVal n) = Some (of_int n)"
  by (simp add: finite_of_def IntVal_def)

lemma jsText_int: "\<bar>n\<bar> < 2 ^ 53 \<Longrightarrow> jsText env (IntVal n) = show_int n"
proof -
  assume "\<bar>n\<bar> < 2 ^ 53"
  then have "\<bar>of_int n :: real\<bar> < of_int (2 ^ 53)"
    by (simp only: of_int_abs [symmetric] of_int_less_iff)
  then show ?thesis by (simp add: jsText_def is_integer_def IntVal_def)
qed

lemma minus_one_int: "\<bar>n\<bar> < 2 ^ 53 \<Longrightarrow> minus_one env (IntVal n) = IntVal (n - 1)"
proof -
  assume "\<bar>n\<bar> < 2 ^ 53"
  then have "\<bar>of_int n :: real\<bar> < of_int (2 ^ 53)"
    by (simp only: of_int_abs [symmetric] of_int_less_iff)
  then show ?thesis by (simp add: minus_one_def is_integer_def IntVal_def)
qed

section \<open>Calendar facts\<close>

lemma ceiling_sevenths: "\<lceil>(of_int a :: real) / 7\<rceil> = (a + 6) div 7"
proof -
  have "\<lceil>(of_int a :: real) / of_int 7\<rceil> = - (- a div 7)"
    by (rule ceiling_divide_eq_div)
  moreover have "- (- a div 7) = (a + 6) div 7" by presburger
  ultimately show ?thesis by simp
qed

lemma calendar_week_div:
  "calendar_week year month day = (first_weekday year month + day + 6) div 7"
  unfolding calendar_week_def by (simp only: ceiling_sevenths)

lemma carry_days_valid:
  "1 \<le> d \<Longrightarrow> d \<le> month_length y m \<Longrightarrow>
     carry_days y m d = \<lparr>getFullYear = y, getMonth = m, getDate = d\<rparr>"
  by (subst carry_days.simps) simp

lemma date_year_idem: "date_year (date_year y) = date_year y"
  by (simp add: date_year_def)

text \<open>The constructor on integers.\<close>

lemma newDate_int:
  "newDate env (IntVal y) (IntVal mi) (IntVal d) =
     (if time_in_range env (days_from_civil (date_year y + mi div 12) (mi mod 12) 1 + d - 1)
      then Some (local_fields env (carry_days (date_year y + mi div 12) (mi mod 12) d))
      else None)"
  by (simp add: newDate_def date_year_def Let_def finite_of_IntVal trunc_of_int)

lemma newDate_date_year:
  "newDate env (IntVal (date_year y)) (IntVal mi) (IntVal d)
     = newDate env (IntVal y) (IntVal mi) (IntVal d)"
  by (simp add: newDate_int date_year_idem)

text \<open>Day 0 of the next month index is carried to the last day of the month.\<close>

lemma carry_days_zero:
  assumes "1 \<le> month" and "month \<le> 12"
  shows "carry_days (yr + month div 12) (month mod 12) 0 =
     \<lparr>getFullYear = yr, getMonth = month - 1, getDate = month_length yr (month - 1)\<rparr>"
proof (cases "month = 12")
  case True
  have "carry_days (yr + 1) 0 0 = carry_days yr 11 (month_length yr 11)"
    by (subst carry_days.simps) (simp add: prev_year_def prev_month_def)
  also have "\<dots> = \<lparr>getFullYear = yr, getMonth = 11, getDate = month_length yr 11\<rparr>"
    using month_length_bounds [of yr 11] by (intro carry_days_valid) auto
  finally show ?thesis using True by simp
next
  case False
  then have m: "month div 12 = 0" "month mod 12 = month" "month \<noteq> 0"
    using assms by auto
  have "carry_days yr month 0 = carry_days yr (month - 1) (month_length yr (month - 1))"
    using m by (subst carry_days.simps) (simp add: prev_year_def prev_month_def)
  also have "\<dots> =
      \<lparr>getFullYear = yr, getMonth = month - 1, getDate = month_length yr (month - 1)\<rparr>"
    using month_length_bounds [of yr "month - 1"] by (intro carry_days_valid) auto
  finally show ?thesis using m by simp
qed

text \<open>In a month that the platform represents.\<close>

lemma month_representable_day:
  assumes "month_representable env y month" and "1 \<le> d"
    and "d \<le> month_length (date_year y) (month - 1)"
  shows "newDate env (IntVal y) (IntVal (month - 1)) (IntVal d) =
     Some \<lparr>getFullYear = date_year y, getMonth = month - 1, getDate = d\<rparr>"
  using assms by (simp add: month_representable_def list_all_iff)

lemma week_of_calendar_day:
  assumes "month_representable env y month" and "1 \<le> d"
    and "d \<le> month_length (date_year y) (month - 1)"
  shows "getWeekNumberInMonth env (newDate env (IntVal y) (IntVal (month - 1)) (IntVal d))
         = Some (calendar_week (date_year y) month d)"
proof -
  have a: "newDate env (IntVal y) (IntVal (month - 1)) (IntVal d) =
      Some \<lparr>getFullYear = date_year y, getMonth = month - 1, getDate = d\<rparr>"
    using assms by (rule month_representable_day)
  have "newDate env (IntVal y) (IntVal (month - 1)) (IntVal 1) =
      Some \<lparr>getFullYear = date_year y, getMonth = month - 1, getDate = 1\<rparr>"
    using month_length_bounds [of "date_year y" "month - 1"]
    by (intro month_representable_day [OF assms(1)]) auto
  then have b: "newDate env (IntVal (date_year y)) (IntVal (month - 1)) (IntVal 1) =
      Some \<lparr>getFullYear = date_year y, getMonth = month - 1, getDate = 1\<rparr>"
    by (simp only: newDate_date_year)
  show ?thesis
    by (simp add: getWeekNumberInMonth_def a b calendar_week_def first_weekday_def Let_def)
qed

lemma month_days_calendar:
  assumes "month_representable env y month"
  shows "month_days env (IntVal y) (IntVal month) = [1..month_length (date_year y) (month - 1)]"
  using assms by (simp add: month_days_def month_representable_def)

text \<open>
  On a month that the platform represents the bucket that the code scans is the week
  bucket of the calendar, in the year of the Date.
\<close>

lemma week_bucket_calendar:
  assumes "1 \<le> month" and "month \<le> 12" and "month_representable env y month"
  shows "week_bucket env (IntVal y) (IntVal month) (Some w)
         = calendar_bucket (date_year y) month w"
proof -
  have days: "month_days env (IntVal y) (IntVal month)
      = [1..month_length (date_year y) (month - 1)]"
    using assms(3) by (rule month_days_calendar)
  have mo: "minus_one env (IntVal month) = IntVal (month - 1)"
    using assms(1,2) by (intro minus_one_int) auto
  have week: "getWeekNumberInMonth env
        (newDate env (IntVal y) (IntVal (month - 1)) (IntVal d))
      = Some (calendar_week (date_year y) month d)"
    if "1 \<le> d" and "d \<le> month_length (date_year y) (month - 1)" for d
    using assms(3) that by (rule week_of_calendar_day)
  show ?thesis
    by (auto simp: week_bucket_def calendar_bucket_def days mo week strict_equal_def)
qed

text \<open>
  On a platform whose local time is within a day of UTC and whose zone skips no day,
  every month of the years from -200000 to 200000 is represented.
\<close>

lemma time_in_range_near:
  assumes "\<bar>local_offset env (D * 86400000)\<bar> \<le> 86400000"
    and "- 100000000 < D" and "D < 100000000"
  shows "time_in_range env D"
  using assms by (simp add: time_in_range_def Let_def)

lemma days_from_civil_bound:
  assumes "- 200002 \<le> y" and "y \<le> 200002" and "- 40 \<le> d" and "d \<le> 40"
  shows "- 99000000 < days_from_civil y mi d \<and> days_from_civil y mi d < 99000000"
proof -
  define y1 where "y1 = (if mi \<le> 1 then y - 1 else y)"
  define era where "era = y1 div 400"
  define yoe where "yoe = y1 - era * 400"
  define mp where "mp = (mi + 10) mod 12"
  have y1: "- 200003 \<le> y1" "y1 \<le> 200002" using assms by (auto simp: y1_def)
  have era: "- 501 \<le> era" "era \<le> 500" using y1 by (auto simp: era_def)
  have yoe: "0 \<le> yoe" "yoe \<le> 399"
    unfolding yoe_def era_def by (simp_all add: minus_div_mult_eq_mod)
  have q: "0 \<le> yoe div 4" "yoe div 4 \<le> 99" "0 \<le> yoe div 100" "yoe div 100 \<le> 3"
    using yoe by auto
  have mp: "0 \<le> mp" "mp \<le> 11" by (auto simp: mp_def)
  have m5: "0 \<le> (153 * mp + 2) div 5" "(153 * mp + 2) div 5 \<le> 337" using mp by auto
  have "days_from_civil y mi d =
      era * 146097 + (yoe * 365 + yoe div 4 - yoe div 100 + ((153 * mp + 2) div 5 + d - 1))
        - 719468"
    by (simp add: days_from_civil_def Let_def y1_def era_def yoe_def mp_def)
  then show ?thesis using era yoe q m5 assms by linarith
qed

lemma month_representable_years:
  assumes "plain_zone env"
    and "- 200000 \<le> y" and "y \<le> 200000" and "1 \<le> m" and "m \<le> 12"
  shows "month_representable env y m"
proof -
  have off: "\<bar>local_offset env t\<bar> \<le> 86400000" for t
    using assms(1) by (simp add: plain_zone_def)
  have fields: "local_fields env dt = dt" for dt
    using assms(1) by (simp add: plain_zone_def)
  have yr: "- 200000 \<le> date_year y" "date_year y \<le> 200000"
    using assms(2,3) by (auto simp: date_year_def)
  have r: "time_in_range env (days_from_civil y' mi 1 + d - 1)"
    if "- 200002 \<le> y'" and "y' \<le> 200002" and "- 40 \<le> d" and "d \<le> 40" for y' mi d
  proof -
    have "days_from_civil y' mi 1 + d - 1 = days_from_civil y' mi d"
      by (simp add: days_from_civil_def Let_def)
    then show ?thesis
      using days_from_civil_bound [OF that, of mi] off by (intro time_in_range_near) auto
  qed
  have c: "0 \<le> m div 12" "m div 12 \<le> 1" using assms(4,5) by auto
  have a: "newDate env (IntVal y) (IntVal m) (IntVal 0) =
      Some \<lparr>getFullYear = date_year y, getMonth = m - 1,
            getDate = month_length (date_year y) (m - 1)\<rparr>"
    using yr c r [where y' = "date_year y + m div 12" and mi = "m mod 12" and d = 0]
    by (simp add: newDate_int fields carry_days_zero [OF assms(4,5)])
  have b: "newDate env (IntVal y) (IntVal (m - 1)) (IntVal day) =
      Some \<lparr>getFullYear = date_year y, getMonth = m - 1, getDate = day\<rparr>"
    if "1 \<le> day" and "day \<le> month_length (date_year y) (m - 1)" for day
  proof -
    have d: "(m - 1) div 12 = 0" "(m - 1) mod 12 = m - 1" using assms(4,5) by auto
    have "day \<le> 40"
      using that(2) month_length_bounds [of "date_year y" "m - 1"] by linarith
    then show ?thesis
      using yr that r [where y' = "date_year y" and mi = "m - 1" and d = day]
      by (simp add: newDate_int fields d carry_days_valid)
  qed
  show ?thesis using a b by (auto simp: month_representable_def list_all_iff)
qed

section \<open>Week completion\<close>

lemma count_week_days_card:
  assumes "distinct days"
  shows "count_week_days env cd year month weekNum days count =
     count + card {day. day \<in> set days
        \<and> strict_equal
            (getWeekNumberInMonth env
               (newDate env year (minus_one env month) (IntVal day))) weekNum
        \<and> truthy_flag (obj_get cd (mkDateKey env year month day))}"
  using assms
proof (induction days arbitrary: count)
  case Nil
  then show ?case by simp
next
  case (Cons day days)
  let ?P = "\<lambda>x. strict_equal
        (getWeekNumberInMonth env
           (newDate env year (minus_one env month) (IntVal x))) weekNum
        \<and> truthy_flag (obj_get cd (mkDateKey env year month x))"
  have fin: "finite {x. x \<in> set days \<and> ?P x}" by simp
  have notin: "day \<notin> {x. x \<in> set days \<and> ?P x}" using Cons.prems by simp
  have ih: "count_week_days env cd year month weekNum days c
      = c + card {x. x \<in> set days \<and> ?P x}" for c
    using Cons.IH Cons.prems by simp
  show ?case
  proof (cases "?P day")
    case True
    then have "{x. x \<in> set (day # days) \<and> ?P x} = insert day {x. x \<in> set days \<and> ?P x}"
      by auto
    then have "card {x. x \<in> set (day # days) \<and> ?P x} = Suc (card {x. x \<in> set days \<and> ?P x})"
      using card_insert_disjoint [OF fin notin] by presburger
    with True show ?thesis by (simp add: ih Let_def)
  next
    case False
    then have "{x. x \<in> set (day # days) \<and> ?P x} = {x. x \<in> set days \<and> ?P x}"
      by auto
    then have "card {x. x \<in> set (day # days) \<and> ?P x} = card {x. x \<in> set days \<and> ?P x}"
      by (simp only:)
    with False show ?thesis by (auto simp add: ih Let_def)
  qed
qed

lemma distinct_month_days: "distinct (month_days env year month)"
  by (simp add: month_days_def split: option.splits)

lemma isWeekComplete_card:
  "isWeekComplete env data year month weekNum =
     (7 \<le> card (marked_days env data year month (week_bucket env year month weekNum)))"
proof -
  have "{day. day \<in> set (month_days env year month)
          \<and> strict_equal
              (getWeekNumberInMonth env
                 (newDate env year (minus_one env month) (IntVal day))) weekNum
          \<and> truthy_flag (obj_get (completedDays data) (mkDateKey env year month day))}
        = marked_days env data year month (week_bucket env year month weekNum)"
    by (auto simp: marked_days_def week_bucket_def)
  then show ?thesis
    by (simp add: isWeekComplete_def count_week_days_card [OF distinct_month_days])
qed

lemma week_bucket_finite: "finite (week_bucket env year month weekNum)"
proof -
  have "week_bucket env year month weekNum \<subseteq> set (month_days env year month)"
    by (auto simp: week_bucket_def)
  then show ?thesis by (rule finite_subset) simp
qed

lemma marked_days_le: "finite days \<Longrightarrow> card (marked_days env data year month days) \<le> card days"
  by (rule card_mono) (auto simp: marked_days_def)

lemma week_bucket_NaN: "week_bucket env year month None = {}"
  by (simp add: week_bucket_def strict_equal_def split: option.splits)

lemma getWeekNumberInMonth_invalid: "getWeekNumberInMonth env None = None"
  by (simp add: getWeekNumberInMonth_def)

lemma completeWorkout_weekCompleted:
  "parseDateKey env dateKey = (year, month, day) \<Longrightarrow>
   weekCompleted (fst (completeWorkout env u dateKey st)) =
     isWeekComplete env (mark_day dateKey (getData st)) year month (weekNumOf env dateKey)"
  by (simp add: completeWorkout_def completeWorkout_data_def weekNumOf_def mark_day_def Let_def
      split: prod.splits)

text \<open>The marked days of a set of days that is written out.\<close>

lemma marked_days_empty: "marked_days env data year month {} = {}"
  by (simp add: marked_days_def)

lemma marked_days_insert:
  "marked_days env data year month (insert d days) =
     (if truthy_flag (obj_get (completedDays data) (mkDateKey env year month d))
      then insert d (marked_days env data year month days)
      else marked_days env data year month days)"
  by (auto simp: marked_days_def)

lemma mkDateKey_int:
  "\<bar>y\<bar> < 2 ^ 53 \<Longrightarrow> \<bar>m\<bar> < 2 ^ 53 \<Longrightarrow>
     mkDateKey env (IntVal y) (IntVal m) d
       = show_int y @ ''-'' @ show_int m @ ''-'' @ show_int d"
  by (simp add: mkDateKey_def jsText_int)

lemma mkWeekKey_int:
  "\<bar>y\<bar> < 2 ^ 53 \<Longrightarrow> \<bar>m\<bar> < 2 ^ 53 \<Longrightarrow>
     mkWeekKey env (IntVal y) (IntVal m) (Some w)
       = show_int y @ ''-'' @ show_int m @ ''-week'' @ show_int w"
  by (simp add: mkWeekKey_def jsText_int)

text \<open>The week number that a call computes for a date of the calendar.\<close>

lemma weekNumOf_calendar:
  assumes "parseDateKey env dateKey = (IntVal y, IntVal m, IntVal d)"
    and "1 \<le> m" and "m \<le> 12" and "1 \<le> d" and "d \<le> month_length (date_year y) (m - 1)"
    and "month_representable env y m"
  shows "weekNumOf env dateKey = Some (calendar_week (date_year y) m d)"
proof -
  have mo: "minus_one env (IntVal m) = IntVal (m - 1)"
    using assms(2,3) by (intro minus_one_int) auto
  have "getWeekNumberInMonth env (newDate env (IntVal y) (IntVal (m - 1)) (IntVal d))
      = Some (calendar_week (date_year y) m d)"
    using assms(6,4,5) by (rule week_of_calendar_day)
  then show ?thesis by (simp add: weekNumOf_def assms(1) mo)
qed

lemma isWeekComplete_calendar:
  assumes "1 \<le> m" and "m \<le> 12" and "month_representable env y m"
  shows "isWeekComplete env data (IntVal y) (IntVal m) (Some w) =
     (7 \<le> card (marked_days env data (IntVal y) (IntVal m) (calendar_bucket (date_year y) m w)))"
  by (simp add: isWeekComplete_card week_bucket_calendar [OF assms])

lemma calendar_bucket_finite: "finite (calendar_bucket year month w)"
proof -
  have "calendar_bucket year month w \<subseteq> {1..month_length year (month - 1)}"
    by (auto simp: calendar_bucket_def)
  then show ?thesis by (rule finite_subset) simp
qed

section \<open>Evaluations for the examples\<close>

lemma parse_examples:
  "parseDateKey env ''2026-1-10'' = (IntVal 2026, IntVal 1, IntVal 10)"
  "parseDateKey env ''2026-1-3'' = (IntVal 2026, IntVal 1, IntVal 3)"
  "parseDateKey env ''2026-1'' = (IntVal 2026, IntVal 1, Undefined)"
  "parseDateKey env ''50-1-7'' = (IntVal 50, IntVal 1, IntVal 7)"
  "parseDateKey env ''300000-1-8'' = (IntVal 300000, IntVal 1, IntVal 8)"
  by (simp_all add: parseDateKey_def jsNumber_def digit_of_def piece_def Let_def)

lemma first_weekdays:
  "first_weekday 2026 1 = 4" "first_weekday 1950 1 = 0" "first_weekday 50 1 = 6"
  "first_weekday 300000 1 = 6"
  by (simp_all add: first_weekday_def getDay_def days_from_civil_def)

lemma calendar_bucket_2026_1_2: "calendar_bucket 2026 1 2 = {4, 5, 6, 7, 8, 9, 10}"
proof (rule set_eqI)
  fix x
  show "x \<in> calendar_bucket 2026 1 2 \<longleftrightarrow> x \<in> {4, 5, 6, 7, 8, 9, 10}"
    by (simp add: calendar_bucket_def calendar_week_div first_weekdays month_length_def)
      presburger
qed

lemma calendar_bucket_2026_1_1: "calendar_bucket 2026 1 1 = {1, 2, 3}"
proof (rule set_eqI)
  fix x
  show "x \<in> calendar_bucket 2026 1 1 \<longleftrightarrow> x \<in> {1, 2, 3}"
    by (simp add: calendar_bucket_def calendar_week_div first_weekdays month_length_def)
      presburger
qed

lemma calendar_bucket_1950_1_1: "calendar_bucket 1950 1 1 = {1, 2, 3, 4, 5, 6, 7}"
proof (rule set_eqI)
  fix x
  show "x \<in> calendar_bucket 1950 1 1 \<longleftrightarrow> x \<in> {1, 2, 3, 4, 5, 6, 7}"
    by (simp add: calendar_bucket_def calendar_week_div first_weekdays month_length_def)
      presburger
qed

lemma calendar_bucket_50_1_2: "calendar_bucket 50 1 2 = {2, 3, 4, 5, 6, 7, 8}"
proof (rule set_eqI)
  fix x
  show "x \<in> calendar_bucket 50 1 2 \<longleftrightarrow> x \<in> {2, 3, 4, 5, 6, 7, 8}"
    by (simp add: calendar_bucket_def calendar_week_div first_weekdays month_length_def)
      presburger
qed

lemma calendar_bucket_300000_1_2: "calendar_bucket 300000 1 2 = {2, 3, 4, 5, 6, 7, 8}"
proof (rule set_eqI)
  fix x
  show "x \<in> calendar_bucket 300000 1 2 \<longleftrightarrow> x \<in> {2, 3, 4, 5, 6, 7, 8}"
    by (simp add: calendar_bucket_def calendar_week_div first_weekdays month_length_def)
      presburger
qed

lemma calendar_weeks:
  "calendar_week 2026 1 10 = 2" "calendar_week 2026 1 3 = 1" "calendar_week 1950 1 7 = 1"
  "calendar_week 50 1 7 = 2" "calendar_week 300000 1 8 = 2"
  by (simp_all add: calendar_week_div first_weekdays)

lemma january_2026:
  assumes "plain_zone env"
  shows "month_representable env 2026 1"
  using assms by (intro month_representable_years) auto

lemma january_1950:
  assumes "plain_zone env"
  shows "month_representable env 50 1"
  using assms by (intro month_representable_years) auto

lemma date_keys:
  "mkDateKey env (IntVal 2026) (IntVal 1) d = ''2026-1-'' @ show_int d"
  "mkDateKey env (IntVal 50) (IntVal 1) d = ''50-1-'' @ show_int d"
  "mkDateKey env (IntVal 300000) (IntVal 1) d = ''300000-1-'' @ show_int d"
  by (simp_all add: mkDateKey_int show_int_def show_nat.simps)

lemma week_key_jan_2: "mkWeekKey env (IntVal 2026) (IntVal 1) (Some 2) = ''2026-1-week2''"
  by (simp add: mkWeekKey_int show_int_def show_nat.simps)

lemmas marked_simps =
  marked_days_insert marked_days_empty date_keys show_int_def show_nat.simps obj_get_def
  truthy_flag_def

lemma weekNumOf_jan_10:
  assumes "plain_zone env"
  shows "weekNumOf env ''2026-1-10'' = Some 2"
  using weekNumOf_calendar [OF parse_examples(1) _ _ _ _ january_2026 [OF assms]]
  by (simp add: date_year_def month_length_def calendar_weeks)

lemma weekNumOf_jan_3:
  assumes "plain_zone env"
  shows "weekNumOf env ''2026-1-3'' = Some 1"
  using weekNumOf_calendar [OF parse_examples(2) _ _ _ _ january_2026 [OF assms]]
  by (simp add: date_year_def month_length_def calendar_weeks)

lemma weekKeyOf_jan_10:
  assumes "plain_zone env"
  shows "weekKeyOf env ''2026-1-10'' = ''2026-1-week2''"
  by (simp add: weekKeyOf_def parse_examples weekNumOf_jan_10 [OF assms] week_key_jan_2)

lemma isWeekComplete_seven_days:
  assumes "plain_zone env" and "completedDays data = seven_days"
  shows "isWeekComplete env data (IntVal 2026) (IntVal 1) (Some 2)"
proof -
  have "marked_days env data (IntVal 2026) (IntVal 1) {4, 5, 6, 7, 8, 9, 10}
      = {4, 5, 6, 7, 8, 9, 10}"
    by (simp add: marked_simps assms(2) seven_days_def)
  then show ?thesis
    using isWeekComplete_calendar [OF _ _ january_2026 [OF assms(1)], of data 2]
    by (simp add: date_year_def calendar_bucket_2026_1_2)
qed

lemma mark_seventh_day: "completedDays (mark_day ''2026-1-10'' six_days) = seven_days"
  by (simp add: mark_day_def six_days_def seven_days_def defaultData_def obj_set_def)

lemma invalid_date_never_completes:
  assumes "parseDateKey env dateKey = (year, month, day)"
    and "newDate env year (minus_one env month) day = None"
  shows "\<not> weekCompleted (fst (completeWorkout env u dateKey st))"
proof -
  have "weekNumOf env dateKey = None"
    using assms by (simp add: weekNumOf_def getWeekNumberInMonth_invalid)
  then show ?thesis
    by (simp add: completeWorkout_weekCompleted [OF assms(1)] isWeekComplete_card
        week_bucket_NaN marked_days_empty)
qed

lemma zone_platform_simps:
  "local_offset (zone_platform z a) t = z"
  "local_fields (zone_platform z a) dt = dt"
  "date_parse (zone_platform z a) = zone_date_parse z"
  "storage_accepts (zone_platform z a) d = a"
  by (simp_all add: zone_platform_def)

lemma open_platform_simps:
  "storage_accepts open_platform d" "date_parse open_platform = zone_date_parse 0"
  "local_offset open_platform t = 0"
  by (simp_all add: open_platform_def zone_platform_simps)

lemma full_platform_simps:
  "\<not> storage_accepts full_platform d" "date_parse full_platform = zone_date_parse 0"
  "local_offset full_platform t = 0"
  by (simp_all add: full_platform_def zone_platform_simps)

lemma berlin_platform_simps:
  "storage_accepts berlin_platform d" "date_parse berlin_platform = zone_date_parse 3600000"
  "local_offset berlin_platform t = 3600000"
  by (simp_all add: berlin_platform_def zone_platform_simps)

lemma new_york_platform_simps:
  "storage_accepts new_york_platform d"
  "date_parse new_york_platform = zone_date_parse (- 18000000)"
  "local_offset new_york_platform t = - 18000000"
  by (simp_all add: new_york_platform_def zone_platform_simps)

lemma zone_platform_plain: "\<bar>z\<bar> \<le> 86400000 \<Longrightarrow> plain_zone (zone_platform z a)"
  by (simp add: plain_zone_def zone_platform_simps)

lemma example_zones:
  "plain_zone open_platform" "plain_zone full_platform" "plain_zone berlin_platform"
  "plain_zone new_york_platform"
  by (simp_all add: open_platform_def full_platform_def berlin_platform_def
      new_york_platform_def zone_platform_plain)

section \<open>Completed weeks\<close>

text \<open>
  C2 (amended). Let \<open>year\<close>, \<open>month\<close> and \<open>day\<close> be the numbers of the pieces of the
  date key \<open>d\<close>. \<open>completeWorkout(d)\<close> reports \<open>weekCompleted = true\<close> exactly when at
  least 7 days of the week bucket that the code scans are marked, counted on the
  document with \<open>d\<close> marked; a day is marked when its key \<open>year-month-day\<close> is in
  \<open>completedDays\<close>. A bucket of fewer than 7 days never completes, and neither does a
  key whose Date is invalid. When the numbers are integers that write a date of the
  calendar, in a month that the platform represents, the week number is
  \<open>ceil((firstWeekdayOfMonth + dayOfMonth) / 7)\<close> with the Sunday-based weekday of day 1
  of the month, in the year of the Date (the year as written, but 1900 + year for the
  years 0 to 99); the week completes exactly when at least 7 days of that week bucket
  of the calendar are marked, and never when the bucket has fewer than 7 days. On a
  platform whose local time is within a day of UTC and whose zone skips no day, every
  month of the years from -200000 to 200000 is represented.
\<close>

theorem week_completed_iff_seven_days:
  assumes "parseDateKey env dateKey = (year, month, day)"
  shows "(weekCompleted (fst (completeWorkout env u dateKey st)) =
            (7 \<le> card (marked_days env (mark_day dateKey (getData st)) year month
                         (week_bucket env year month (weekNumOf env dateKey)))))
    \<and> (card (week_bucket env year month (weekNumOf env dateKey)) < 7 \<longrightarrow>
         \<not> weekCompleted (fst (completeWorkout env u dateKey st)))
    \<and> (newDate env year (minus_one env month) day = None \<longrightarrow>
         \<not> weekCompleted (fst (completeWorkout env u dateKey st)))
    \<and> (year = IntVal y \<and> month = IntVal m \<and> day = IntVal d
         \<and> 1 \<le> m \<and> m \<le> 12 \<and> 1 \<le> d \<and> d \<le> month_length (date_year y) (m - 1)
         \<and> month_representable env y m \<longrightarrow>
         weekNumOf env dateKey = Some (calendar_week (date_year y) m d)
         \<and> (weekCompleted (fst (completeWorkout env u dateKey st)) =
              (7 \<le> card (marked_days env (mark_day dateKey (getData st)) year month
                           (calendar_bucket (date_year y) m (calendar_week (date_year y) m d)))))
         \<and> (card (calendar_bucket (date_year y) m (calendar_week (date_year y) m d)) < 7 \<longrightarrow>
              \<not> weekCompleted (fst (completeWorkout env u dateKey st))))
    \<and> (plain_zone env \<and> - 200000 \<le> y \<and> y \<le> 200000 \<and> 1 \<le> m \<and> m \<le> 12 \<longrightarrow>
         month_representable env y m)"
proof -
  let ?wc = "weekCompleted (fst (completeWorkout env u dateKey st))"
  let ?data = "mark_day dateKey (getData st)"
  have iff: "?wc = (7 \<le> card (marked_days env ?data year month
      (week_bucket env year month (weekNumOf env dateKey))))"
    by (simp add: completeWorkout_weekCompleted [OF assms] isWeekComplete_card)
  have small: "\<not> ?wc" if "card (week_bucket env year month (weekNumOf env dateKey)) < 7"
    using that iff
      marked_days_le [OF week_bucket_finite, of env ?data year month env year month
        "weekNumOf env dateKey"]
    by linarith
  have invalid: "\<not> ?wc" if "newDate env year (minus_one env month) day = None"
  proof -
    have "weekNumOf env dateKey = None"
      using that by (simp add: weekNumOf_def assms getWeekNumberInMonth_invalid)
    then show ?thesis by (simp add: iff week_bucket_NaN marked_days_empty)
  qed
  have calendar: "weekNumOf env dateKey = Some (calendar_week (date_year y) m d)
      \<and> (?wc = (7 \<le> card (marked_days env ?data year month
                 (calendar_bucket (date_year y) m (calendar_week (date_year y) m d)))))
      \<and> (card (calendar_bucket (date_year y) m (calendar_week (date_year y) m d)) < 7 \<longrightarrow>
           \<not> ?wc)"
    if h: "year = IntVal y \<and> month = IntVal m \<and> day = IntVal d
         \<and> 1 \<le> m \<and> m \<le> 12 \<and> 1 \<le> d \<and> d \<le> month_length (date_year y) (m - 1)
         \<and> month_representable env y m"
  proof -
    have p: "parseDateKey env dateKey = (IntVal y, IntVal m, IntVal d)"
      using assms h by simp
    have w: "weekNumOf env dateKey = Some (calendar_week (date_year y) m d)"
      using h by (intro weekNumOf_calendar [OF p]) auto
    have b: "week_bucket env year month (Some (calendar_week (date_year y) m d))
        = calendar_bucket (date_year y) m (calendar_week (date_year y) m d)"
      using h week_bucket_calendar [of m env y] by simp
    have e: "?wc = (7 \<le> card (marked_days env ?data year month
                 (calendar_bucket (date_year y) m (calendar_week (date_year y) m d))))"
      using iff by (simp add: w b)
    have "\<not> ?wc"
      if "card (calendar_bucket (date_year y) m (calendar_week (date_year y) m d)) < 7"
      using that e
        marked_days_le [OF calendar_bucket_finite, of env ?data year month "date_year y" m
          "calendar_week (date_year y) m d"]
      by linarith
    with w e show ?thesis by blast
  qed
  have years: "month_representable env y m"
    if "plain_zone env \<and> - 200000 \<le> y \<and> y \<le> 200000 \<and> 1 \<le> m \<and> m \<le> 12"
    using that by (intro month_representable_years) auto
  from iff small invalid calendar years show ?thesis by blast
qed

theorem week_completed_iff_seven_days_witness:
  "parseDateKey open_platform ''2026-1-10'' = (IntVal 2026, IntVal 1, IntVal 10)
   \<and> plain_zone open_platform
   \<and> month_representable open_platform 2026 1
   \<and> first_weekday 2026 1 = 4
   \<and> weekNumOf open_platform ''2026-1-10'' = Some 2
   \<and> calendar_week (date_year 2026) 1 10 = 2
   \<and> weekCompleted (fst (completeWorkout open_platform (1 / 2) ''2026-1-10'' (Some six_days)))
   \<and> 7 \<le> card (marked_days open_platform (mark_day ''2026-1-10'' (getData (Some six_days)))
             (IntVal 2026) (IntVal 1) (calendar_bucket 2026 1 2))
   \<and> parseDateKey open_platform ''2026-1-3'' = (IntVal 2026, IntVal 1, IntVal 3)
   \<and> calendar_week (date_year 2026) 1 3 = 1
   \<and> card (calendar_bucket 2026 1 1) = 3
   \<and> \<not> weekCompleted (fst (completeWorkout open_platform (1 / 2) ''2026-1-3'' (Some six_days)))
   \<and> parseDateKey open_platform ''2026-1'' = (IntVal 2026, IntVal 1, Undefined)
   \<and> newDate open_platform (IntVal 2026) (minus_one open_platform (IntVal 1)) Undefined = None
   \<and> \<not> weekCompleted (fst (completeWorkout open_platform (1 / 2) ''2026-1'' (Some six_days)))"
proof -
  let ?st = "Some six_days"
  have g: "getData ?st = six_days"
    by (simp add: getData_def storage_get_def)
  note t10 = week_completed_iff_seven_days [OF parse_examples(1), where env = open_platform
      and u = "1 / 2" and st = ?st and y = 2026 and m = 1 and d = 10]
  have "plain_zone open_platform \<and> (- 200000 :: int) \<le> 2026
      \<and> (2026 :: int) \<le> 200000 \<and> (1 :: int) \<le> 1 \<and> (1 :: int) \<le> 12"
    by (simp add: example_zones)
  then have rep: "month_representable open_platform 2026 1"
    using t10 by blast
  have y: "date_year 2026 = 2026" by (simp add: date_year_def)
  have n: "newDate open_platform (IntVal 2026) (minus_one open_platform (IntVal 1)) Undefined = None"
    by (simp add: newDate_def finite_of_def split: option.splits)
  have marked: "marked_days open_platform (mark_day ''2026-1-10'' (getData ?st))
      (IntVal 2026) (IntVal 1) (calendar_bucket 2026 1 2) = {4, 5, 6, 7, 8, 9, 10}"
    by (simp add: g mark_seventh_day seven_days_def calendar_bucket_2026_1_2 marked_simps)
  note t3 = week_completed_iff_seven_days [OF parse_examples(2), where env = open_platform
      and u = "1 / 2" and st = ?st and y = 2026 and m = 1 and d = 3]
  note t0 = week_completed_iff_seven_days [OF parse_examples(3), where env = open_platform
      and u = "1 / 2" and st = ?st]
  have h10: "IntVal 2026 = IntVal 2026 \<and> IntVal 1 = IntVal 1 \<and> IntVal 10 = IntVal 10
      \<and> (1::int) \<le> 1 \<and> (1::int) \<le> 12 \<and> (1::int) \<le> 10
      \<and> 10 \<le> month_length (date_year 2026) (1 - 1)
      \<and> month_representable open_platform 2026 1"
    using rep by (simp add: y month_length_def)
  have h3: "IntVal 2026 = IntVal 2026 \<and> IntVal 1 = IntVal 1 \<and> IntVal 3 = IntVal 3
      \<and> (1::int) \<le> 1 \<and> (1::int) \<le> 12 \<and> (1::int) \<le> 3
      \<and> 3 \<le> month_length (date_year 2026) (1 - 1)
      \<and> month_representable open_platform 2026 1"
    using rep by (simp add: y month_length_def)
  have a: "weekNumOf open_platform ''2026-1-10'' = Some (calendar_week (date_year 2026) 1 10)
      \<and> (weekCompleted (fst (completeWorkout open_platform (1 / 2) ''2026-1-10'' ?st)) =
          (7 \<le> card (marked_days open_platform (mark_day ''2026-1-10'' (getData ?st))
             (IntVal 2026) (IntVal 1)
             (calendar_bucket (date_year 2026) 1 (calendar_week (date_year 2026) 1 10)))))"
    using t10 h10 by blast
  have b: "card (calendar_bucket (date_year 2026) 1 (calendar_week (date_year 2026) 1 3)) < 7 \<longrightarrow>
      \<not> weekCompleted (fst (completeWorkout open_platform (1 / 2) ''2026-1-3'' ?st))"
    using t3 h3 by blast
  have c: "\<not> weekCompleted (fst (completeWorkout open_platform (1 / 2) ''2026-1'' ?st))"
    using t0 n by blast
  have w10: "weekCompleted (fst (completeWorkout open_platform (1 / 2) ''2026-1-10'' ?st))"
    using a by (simp add: y calendar_weeks marked)
  have w3: "\<not> weekCompleted (fst (completeWorkout open_platform (1 / 2) ''2026-1-3'' ?st))"
    using b by (simp add: y calendar_weeks calendar_bucket_2026_1_1)
  have k: "weekNumOf open_platform ''2026-1-10'' = Some 2"
    using a by (simp add: y calendar_weeks)
  show ?thesis
    using rep w10 w3 c k n example_zones(1)
    by (simp add: parse_examples first_weekdays y calendar_weeks calendar_bucket_2026_1_1 marked)
qed

text \<open>
  C2 as stated takes the week number of every date from the first weekday of its own
  month. For the key \<open>50-1-7\<close> the constructor builds the 7th of January 1950, a month
  that starts on a Sunday: with the days 1 to 6 marked the call completes the week,
  while January of the year 50 starts on a Saturday, so that the week bucket of the
  7th is the 2nd to the 8th and holds six marked days. For the key \<open>300000-1-8\<close> the
  Date is invalid and the call reports no completed week, while the seven days of the
  week bucket of the 8th, the 2nd to the 8th, are marked.
\<close>

theorem week_completed_outside_calendar_counterexample:
  "parseDateKey open_platform ''50-1-7'' = (IntVal 50, IntVal 1, IntVal 7)
   \<and> weekCompleted (fst (completeWorkout open_platform (1 / 2) ''50-1-7'' (Some year_50_days)))
   \<and> first_weekday 50 1 = 6
   \<and> calendar_week 50 1 7 = 2
   \<and> card (marked_days open_platform (mark_day ''50-1-7'' (getData (Some year_50_days)))
        (IntVal 50) (IntVal 1) (calendar_bucket 50 1 (calendar_week 50 1 7))) = 6
   \<and> parseDateKey open_platform ''300000-1-8'' = (IntVal 300000, IntVal 1, IntVal 8)
   \<and> \<not> weekCompleted
          (fst (completeWorkout open_platform (1 / 2) ''300000-1-8'' (Some year_300000_days)))
   \<and> first_weekday 300000 1 = 6
   \<and> calendar_week 300000 1 8 = 2
   \<and> card (marked_days open_platform (mark_day ''300000-1-8'' (getData (Some year_300000_days)))
        (IntVal 300000) (IntVal 1) (calendar_bucket 300000 1 (calendar_week 300000 1 8))) = 7"
proof -
  have d50: "completedDays (mark_day ''50-1-7'' (getData (Some year_50_days))) =
      [(''50-1-1'', True), (''50-1-2'', True), (''50-1-3'', True), (''50-1-4'', True),
       (''50-1-5'', True), (''50-1-6'', True), (''50-1-7'', True)]"
    by (simp add: mark_day_def year_50_days_def defaultData_def getData_def storage_get_def
        obj_set_def)
  have d300000: "completedDays (mark_day ''300000-1-8'' (getData (Some year_300000_days))) =
      [(''300000-1-2'', True), (''300000-1-3'', True), (''300000-1-4'', True),
       (''300000-1-5'', True), (''300000-1-6'', True), (''300000-1-7'', True),
       (''300000-1-8'', True)]"
    by (simp add: mark_day_def year_300000_days_def defaultData_def getData_def storage_get_def
        obj_set_def)
  have rep: "month_representable open_platform 50 1"
    by (rule january_1950) (rule example_zones)
  have w: "weekNumOf open_platform ''50-1-7'' = Some 1"
    using weekNumOf_calendar [OF parse_examples(4) _ _ _ _ rep]
    by (simp add: date_year_def month_length_def calendar_weeks)
  have "marked_days open_platform (mark_day ''50-1-7'' (getData (Some year_50_days)))
      (IntVal 50) (IntVal 1) {1, 2, 3, 4, 5, 6, 7} = {1, 2, 3, 4, 5, 6, 7}"
    by (simp add: d50 marked_simps)
  then have "isWeekComplete open_platform (mark_day ''50-1-7'' (getData (Some year_50_days)))
      (IntVal 50) (IntVal 1) (Some 1)"
    using isWeekComplete_calendar [OF _ _ rep, of _ 1]
    by (simp add: date_year_def calendar_bucket_1950_1_1)
  then have a: "weekCompleted (fst (completeWorkout open_platform (1 / 2) ''50-1-7''
      (Some year_50_days)))"
    by (simp add: completeWorkout_weekCompleted [OF parse_examples(4)] w)
  have "marked_days open_platform (mark_day ''50-1-7'' (getData (Some year_50_days)))
      (IntVal 50) (IntVal 1) {2, 3, 4, 5, 6, 7, 8} = {2, 3, 4, 5, 6, 7}"
    by (simp add: d50 marked_simps)
  then have b: "card (marked_days open_platform (mark_day ''50-1-7'' (getData (Some year_50_days)))
        (IntVal 50) (IntVal 1) (calendar_bucket 50 1 (calendar_week 50 1 7))) = 6"
    by (simp add: calendar_weeks calendar_bucket_50_1_2)
  have "newDate open_platform (IntVal 300000) (minus_one open_platform (IntVal 1)) (IntVal 8)
      = None"
    by (simp add: minus_one_int newDate_int date_year_def days_from_civil_def
        time_in_range_def open_platform_simps)
  then have c: "\<not> weekCompleted
      (fst (completeWorkout open_platform (1 / 2) ''300000-1-8'' (Some year_300000_days)))"
    by (rule invalid_date_never_completes [OF parse_examples(5)])
  have "marked_days open_platform (mark_day ''300000-1-8'' (getData (Some year_300000_days)))
      (IntVal 300000) (IntVal 1) {2, 3, 4, 5, 6, 7, 8} = {2, 3, 4, 5, 6, 7, 8}"
    by (simp add: d300000 marked_simps)
  then have d: "card (marked_days open_platform
        (mark_day ''300000-1-8'' (getData (Some year_300000_days)))
        (IntVal 300000) (IntVal 1) (calendar_bucket 300000 1 (calendar_week 300000 1 8))) = 7"
    by (simp add: calendar_weeks calendar_bucket_300000_1_2)
  from a b c d show ?thesis
    by (simp add: parse_examples first_weekdays calendar_weeks)
qed

section \<open>At most one reward per week\<close>

lemma week_of_jan_10:
  assumes "plain_zone env"
  shows "getWeekNumberInMonth env
           (newDate env (IntVal 2026) (minus_one env (IntVal 1)) (IntVal 10)) = Some 2"
  using weekNumOf_jan_10 [OF assms] by (simp add: weekNumOf_def parse_examples)

lemma seventh_day_call:
  assumes "plain_zone env"
    and "obj_set (completedDays data0) ''2026-1-10'' True = seven_days"
  shows "completeWorkout_data env u ''2026-1-10'' data0 =
     (if \<not> truthy_num (obj_get (weeklyRewards data0) ''2026-1-week2'') then
        (data0\<lparr>completedDays := seven_days,
               weeklyRewards := obj_set (weeklyRewards data0) ''2026-1-week2''
                 (randomInt (minReward data0) (maxReward data0) u),
               movements := map (contribute env ''2026-1-10'' ''2026-1-week2''
                 (randomInt (minReward data0) (maxReward data0) u)) (movements data0)\<rparr>,
         True, Some (randomInt (minReward data0) (maxReward data0) u))
      else (data0\<lparr>completedDays := seven_days\<rparr>, True, None))"
  by (simp add: completeWorkout_data_def Let_def parse_examples week_of_jan_10 [OF assms(1)]
      week_key_jan_2 isWeekComplete_seven_days [OF assms(1)] assms(2))

lemmas open_seventh_day = seventh_day_call [where env = open_platform, OF example_zones(1)]

lemmas full_seventh_day = seventh_day_call [where env = full_platform, OF example_zones(2)]

lemma list_all_update:
  "list_all P al \<Longrightarrow> P (k, v) \<Longrightarrow> list_all P (AList.update k v al)"
  by (induction al) auto


lemma completeWorkout_data_rewards:
  "weeklyRewards (fst (completeWorkout_data env u dateKey data0)) = weeklyRewards data0
   \<or> (\<not> truthy_num (obj_get (weeklyRewards data0) (weekKeyOf env dateKey))
         \<and> snd (snd (completeWorkout_data env u dateKey data0))
             = Some (randomInt (minReward data0) (maxReward data0) u)
         \<and> weeklyRewards (fst (completeWorkout_data env u dateKey data0))
             = obj_set (weeklyRewards data0) (weekKeyOf env dateKey)
                 (randomInt (minReward data0) (maxReward data0) u))"
  by (auto simp: completeWorkout_data_def weekKeyOf_def weekNumOf_def Let_def split: prod.splits)

lemma completeWorkout_data_bounds:
  "minReward (fst (completeWorkout_data env u dateKey data0)) = minReward data0
   \<and> maxReward (fst (completeWorkout_data env u dateKey data0)) = maxReward data0"
  by (auto simp: completeWorkout_data_def Let_def split: prod.splits)

lemma completeWorkout_data_no_reward:
  assumes "truthy_num (obj_get (weeklyRewards data0) (weekKeyOf env dateKey))"
  shows "snd (snd (completeWorkout_data env u dateKey data0)) = None
    \<and> weeklyRewards (fst (completeWorkout_data env u dateKey data0)) = weeklyRewards data0"
  using assms
  by (auto simp: completeWorkout_data_def weekKeyOf_def weekNumOf_def Let_def split: prod.splits)

lemma stored_reward_step:
  assumes "stored_reward st k = Some v" and "v \<noteq> 0"
  shows "stored_reward (snd (completeWorkout env u dateKey st)) k = Some v"
proof -
  let ?d = "fst (completeWorkout_data env u dateKey (getData st))"
  have "obj_get (weeklyRewards ?d) k = Some v"
    using completeWorkout_data_rewards [of env u dateKey "getData st"] assms
    by (auto simp: stored_reward_def obj_get_obj_set truthy_num_def)
  then show ?thesis
    using assms(1) by (simp add: stored_reward_def completeWorkout_store getData_saveData)
qed

lemma rewards_positive_lookup:
  "rewards_positive data \<Longrightarrow> obj_get (weeklyRewards data) k = Some v \<Longrightarrow> 0 < v"
  by (auto simp: rewards_positive_def obj_get_def list_all_iff positive_entry_def
      dest!: map_of_SomeD)

lemma invariants_step:
  assumes "rewards_positive (getData st)" and "range_ok (getData st)" and "0 \<le> u" and "u < 1"
  shows "rewards_positive (getData (snd (completeWorkout env u dateKey st)))
    \<and> range_ok (getData (snd (completeWorkout env u dateKey st)))"
proof -
  let ?d = "fst (completeWorkout_data env u dateKey (getData st))"
  let ?r = "randomInt (minReward (getData st)) (maxReward (getData st)) u"
  have "0 < ?r"
    using randomInt_bounds [of "minReward (getData st)" "maxReward (getData st)" u] assms
    by (simp add: range_ok_def)
  then have "rewards_positive ?d"
    using completeWorkout_data_rewards [of env u dateKey "getData st"] assms(1)
    by (auto simp: rewards_positive_def obj_set_def positive_entry_def intro!: list_all_update)
  moreover have "range_ok ?d"
    using assms(2) by (simp add: range_ok_def completeWorkout_data_bounds)
  ultimately show ?thesis
    using assms(1,2) by (simp add: completeWorkout_store getData_saveData)
qed

lemma invariants_completions:
  assumes "rewards_positive (getData st)" and "range_ok (getData st)"
    and "list_all unit_draw calls"
  shows "rewards_positive (getData (completions env calls st))
    \<and> range_ok (getData (completions env calls st))"
  using assms
proof (induction calls arbitrary: st)
  case Nil
  then show ?case by simp
next
  case (Cons c cs)
  have "rewards_positive (getData (snd (completeWorkout env (fst c) (snd c) st)))
      \<and> range_ok (getData (snd (completeWorkout env (fst c) (snd c) st)))"
    using Cons.prems by (intro invariants_step) (auto simp: unit_draw_def)
  then show ?case using Cons.IH Cons.prems by simp
qed

lemma rewarded_week_stays:
  assumes "stored_reward st k = Some v" and "v \<noteq> 0"
  shows "reward_writes env k calls st = 0 \<and> stored_reward (completions env calls st) k = Some v"
  using assms
proof (induction calls arbitrary: st)
  case Nil
  then show ?case by simp
next
  case (Cons c cs)
  have s: "stored_reward (snd (completeWorkout env (fst c) (snd c) st)) k = Some v"
    using Cons.prems by (rule stored_reward_step)
  from Cons.IH [OF s Cons.prems(2)] s Cons.prems(1) show ?case
    by (simp add: Let_def)
qed

lemma reward_writes_le_1:
  assumes "rewards_positive (getData st)" and "range_ok (getData st)"
    and "list_all unit_draw calls"
  shows "reward_writes env k calls st \<le> 1"
  using assms
proof (induction calls arbitrary: st)
  case Nil
  then show ?case by simp
next
  case (Cons c cs)
  let ?st = "snd (completeWorkout env (fst c) (snd c) st)"
  have inv: "rewards_positive (getData ?st) \<and> range_ok (getData ?st)"
    using Cons.prems by (intro invariants_step) (auto simp: unit_draw_def)
  show ?case
  proof (cases "stored_reward ?st k = stored_reward st k")
    case True
    then show ?thesis using Cons.IH [of ?st] inv Cons.prems(3) by (simp add: Let_def)
  next
    case False
    have "stored_reward st k = None"
    proof (rule ccontr)
      assume "stored_reward st k \<noteq> None"
      then obtain v where v: "stored_reward st k = Some v" by auto
      then have "0 < v" using Cons.prems(1) by (auto simp: stored_reward_def dest: rewards_positive_lookup)
      then have "stored_reward ?st k = Some v" using v by (intro stored_reward_step) auto
      with v False show False by simp
    qed
    with False obtain v where v: "stored_reward ?st k = Some v" by (cases "stored_reward ?st k") auto
    then have "0 < v" using inv by (auto simp: stored_reward_def dest: rewards_positive_lookup)
    then have "reward_writes env k cs ?st = 0"
      using rewarded_week_stays [OF v, of env cs] by simp
    with False show ?thesis by (simp add: Let_def)
  qed
qed

lemma completions_append:
  "completions env (cs1 @ cs2) st = completions env cs2 (completions env cs1 st)"
  by (induction cs1 arbitrary: st) auto

lemma randomInt_examples:
  "randomInt 1 5 (1 / 2) = 3" "randomInt 1 5 0 = 1" "randomInt 0 1 0 = 0" "randomInt 0 1 (1 / 2) = 1"
  by (simp_all add: randomInt_def)

lemmas example_docs =
  rewarded_doc_def rewarded_doc_1_def zero_floor_doc_def zero_floor_doc_1_def
  zero_floor_doc_2_def six_days_def seven_days_def defaultData_def

lemmas store_simps =
  getData_def storage_get_def saveData_def storage_set_def open_platform_simps
  full_platform_simps obj_set_def obj_get_def truthy_num_def

lemma rewarded_doc_call_1:
  "completeWorkout open_platform (1 / 2) ''2026-1-10'' (Some rewarded_doc) =
     (\<lparr>success = True, weekCompleted = True, reward = Some 3\<rparr>, Some rewarded_doc_1)"
  by (simp add: completeWorkout_def open_seventh_day randomInt_examples example_docs store_simps)

lemma zero_floor_call_1:
  "completeWorkout open_platform 0 ''2026-1-10'' (Some zero_floor_doc) =
     (\<lparr>success = True, weekCompleted = True, reward = Some 0\<rparr>, Some zero_floor_doc_1)"
  by (simp add: completeWorkout_def open_seventh_day randomInt_examples example_docs store_simps)

lemma zero_floor_call_2:
  "completeWorkout open_platform (1 / 2) ''2026-1-10'' (Some zero_floor_doc_1) =
     (\<lparr>success = True, weekCompleted = True, reward = Some 1\<rparr>, Some zero_floor_doc_2)"
  by (simp add: completeWorkout_def open_seventh_day randomInt_examples example_docs store_simps)

text \<open>
  C1 (amended). For every week key \<open>k\<close> and every sequence of \<open>completeWorkout\<close> calls
  with draws in \<open>[0, 1)\<close>, starting from a store whose rewards are all positive and whose
  bounds satisfy \<open>1 \<le> minReward \<le> maxReward\<close>: the stored \<open>weeklyRewards[k]\<close> changes
  in at most one call of the sequence; a value it holds after any prefix of the
  sequence is the value it holds at the end; and a call for a date of a week that
  already has its reward returns \<open>reward = null\<close> and leaves \<open>weeklyRewards[k]\<close> as it
  is. This holds whether or not the store takes the writes.
\<close>

theorem weekly_reward_written_once:
  assumes "rewards_positive (getData st)" and "range_ok (getData st)"
    and "list_all unit_draw calls"
  shows "reward_writes env k calls st \<le> 1
    \<and> (\<forall>n v. stored_reward (completions env (take n calls) st) k = Some v \<longrightarrow>
          stored_reward (completions env calls st) k = Some v)
    \<and> (\<forall>u dateKey v. stored_reward st k = Some v \<and> weekKeyOf env dateKey = k \<longrightarrow>
          reward (fst (completeWorkout env u dateKey st)) = None
          \<and> stored_reward (snd (completeWorkout env u dateKey st)) k = Some v)"
proof (intro conjI allI impI)
  show "reward_writes env k calls st \<le> 1"
    using assms by (rule reward_writes_le_1)
next
  fix n v
  assume a: "stored_reward (completions env (take n calls) st) k = Some v"
  have "list_all unit_draw (take n calls)"
    using assms(3) by (auto simp: list_all_iff dest: in_set_takeD)
  then have "rewards_positive (getData (completions env (take n calls) st))"
    using invariants_completions [OF assms(1,2)] by blast
  then have "0 < v" using a by (auto simp: stored_reward_def dest: rewards_positive_lookup)
  then have "stored_reward (completions env (drop n calls) (completions env (take n calls) st)) k
      = Some v"
    using rewarded_week_stays [OF a, of env "drop n calls"] by simp
  then show "stored_reward (completions env calls st) k = Some v"
    using completions_append [of env "take n calls" "drop n calls" st] by simp
next
  fix u dateKey v
  assume a: "stored_reward st k = Some v \<and> weekKeyOf env dateKey = k"
  then have pos: "0 < v"
    using assms(1) by (auto simp: stored_reward_def dest: rewards_positive_lookup)
  then have "truthy_num (obj_get (weeklyRewards (getData st)) k)"
    using a by (simp add: stored_reward_def truthy_num_def)
  then show "reward (fst (completeWorkout env u dateKey st)) = None"
    using a completeWorkout_data_no_reward [of "getData st" env dateKey u]
    by (simp add: completeWorkout_reward)
  show "stored_reward (snd (completeWorkout env u dateKey st)) k = Some v"
    using a pos by (intro stored_reward_step) auto
qed

theorem weekly_reward_written_once_witness:
  "rewards_positive (getData (Some rewarded_doc)) \<and> range_ok (getData (Some rewarded_doc))
   \<and> list_all unit_draw [(1 / 2, ''2026-1-10''), (0, ''2026-1-10'')]
   \<and> stored_reward (Some rewarded_doc) ''2026-1-week2'' = None
   \<and> reward (fst (completeWorkout open_platform (1 / 2) ''2026-1-10'' (Some rewarded_doc))) = Some 3
   \<and> reward_writes open_platform ''2026-1-week2''
        [(1 / 2, ''2026-1-10''), (0, ''2026-1-10'')] (Some rewarded_doc) \<le> 1
   \<and> stored_reward (completions open_platform
        [(1 / 2, ''2026-1-10''), (0, ''2026-1-10'')] (Some rewarded_doc)) ''2026-1-week2'' = Some 3
   \<and> weekKeyOf open_platform ''2026-1-10'' = ''2026-1-week2''
   \<and> reward (fst (completeWorkout open_platform 0 ''2026-1-10'' (Some rewarded_doc_1))) = None
   \<and> stored_reward (snd (completeWorkout open_platform 0 ''2026-1-10'' (Some rewarded_doc_1)))
        ''2026-1-week2'' = Some 3"
proof -
  let ?calls = "[(1 / 2 :: real, ''2026-1-10''), (0, ''2026-1-10'')]"
  have p0: "rewards_positive (getData (Some rewarded_doc))"
    and r0: "range_ok (getData (Some rewarded_doc))"
    and p1: "rewards_positive (getData (Some rewarded_doc_1))"
    and r1: "range_ok (getData (Some rewarded_doc_1))"
    by (simp_all add: rewards_positive_def range_ok_def positive_entry_def example_docs store_simps)
  have u: "list_all unit_draw ?calls" and e: "list_all unit_draw []"
    by (simp_all add: unit_draw_def)
  have s0: "stored_reward (Some rewarded_doc) ''2026-1-week2'' = None"
    and s1: "stored_reward (Some rewarded_doc_1) ''2026-1-week2'' = Some 3"
    by (simp_all add: stored_reward_def example_docs store_simps)
  have t: "completions open_platform (take 1 ?calls) (Some rewarded_doc) = Some rewarded_doc_1"
    by (simp add: rewarded_doc_call_1)
  note a = weekly_reward_written_once [OF p0 r0 u, of open_platform "''2026-1-week2''"]
  note b = weekly_reward_written_once [OF p1 r1 e, of open_platform "''2026-1-week2''"]
  have w: "reward_writes open_platform ''2026-1-week2'' ?calls (Some rewarded_doc) \<le> 1"
    using a by blast
  have f: "stored_reward (completions open_platform ?calls (Some rewarded_doc)) ''2026-1-week2'' = Some 3"
    using a t s1 by metis
  have wk: "weekKeyOf open_platform ''2026-1-10'' = ''2026-1-week2''"
    by (rule weekKeyOf_jan_10) (rule example_zones)
  have n: "reward (fst (completeWorkout open_platform 0 ''2026-1-10'' (Some rewarded_doc_1))) = None
      \<and> stored_reward (snd (completeWorkout open_platform 0 ''2026-1-10'' (Some rewarded_doc_1)))
        ''2026-1-week2'' = Some 3"
    using b s1 wk by blast
  show ?thesis
    using p0 r0 u s0 w f n wk by (simp add: rewarded_doc_call_1)
qed

text \<open>
  C1 as stated asks only for positive stored rewards. With the bounds
  \<open>minReward = 0\<close>, \<open>maxReward = 1\<close> the draw 0 issues the reward 0, which the guard
  \<open>!data.weeklyRewards[weekKey]\<close> reads as absent: the next call of the same week
  issues a reward again and the stored value changes from 0 to 1.
\<close>

theorem weekly_reward_rewritten_counterexample:
  "rewards_positive (getData (Some zero_floor_doc))
   \<and> list_all unit_draw [(0, ''2026-1-10''), (1 / 2, ''2026-1-10'')]
   \<and> stored_reward (completions open_platform [(0, ''2026-1-10'')] (Some zero_floor_doc))
        ''2026-1-week2'' = Some 0
   \<and> stored_reward (completions open_platform [(0, ''2026-1-10''), (1 / 2, ''2026-1-10'')]
        (Some zero_floor_doc)) ''2026-1-week2'' = Some 1
   \<and> reward (fst (completeWorkout open_platform (1 / 2) ''2026-1-10''
        (completions open_platform [(0, ''2026-1-10'')] (Some zero_floor_doc)))) = Some 1
   \<and> reward_writes open_platform ''2026-1-week2''
        [(0, ''2026-1-10''), (1 / 2, ''2026-1-10'')] (Some zero_floor_doc) = 2"
proof -
  have "rewards_positive (getData (Some zero_floor_doc))"
    by (simp add: rewards_positive_def positive_entry_def example_docs store_simps)
  moreover have "list_all unit_draw [(0, ''2026-1-10''), (1 / 2, ''2026-1-10'')]"
    by (simp add: unit_draw_def)
  moreover have "stored_reward (Some zero_floor_doc) ''2026-1-week2'' = None"
    and "stored_reward (Some zero_floor_doc_1) ''2026-1-week2'' = Some 0"
    and "stored_reward (Some zero_floor_doc_2) ''2026-1-week2'' = Some 1"
    by (simp_all add: stored_reward_def example_docs store_simps)
  ultimately show ?thesis
    by (simp add: zero_floor_call_1 zero_floor_call_2 Let_def)
qed

section \<open>Persistence failure\<close>

text \<open>
  C3. When the write to the backing store fails during \<open>completeWorkout\<close>, the failure
  should reach the caller as a failed result. In the code \<open>storage.set\<close> returns
  \<open>false\<close>, \<open>saveData\<close> drops it and the result carries the literal \<open>success: true\<close>:
  on a store that refuses every write each call reports success and leaves the store
  as it was. The call that completes the seventh day of a week there reports a
  completed week and a reward of 3 while the day and the reward are lost.
\<close>

theorem completeWorkout_reports_success_on_failed_write:
  "success (fst (completeWorkout full_platform u dateKey st))
   \<and> snd (completeWorkout full_platform u dateKey st) = st
   \<and> completeWorkout full_platform (1 / 2) ''2026-1-10'' (Some six_days) =
       (\<lparr>success = True, weekCompleted = True, reward = Some 3\<rparr>, Some six_days)"
proof -
  have a: "success (fst (completeWorkout full_platform u dateKey st))"
    by (simp add: completeWorkout_def split: prod.splits)
  have b: "snd (completeWorkout full_platform u dateKey st) = st"
    by (simp add: completeWorkout_store saveData_refused full_platform_simps)
  have c: "completeWorkout full_platform (1 / 2) ''2026-1-10'' (Some six_days) =
       (\<lparr>success = True, weekCompleted = True, reward = Some 3\<rparr>, Some six_days)"
    by (simp add: completeWorkout_def full_seventh_day randomInt_examples example_docs
        store_simps)
  from a b c show ?thesis by simp
qed

section \<open>Reward range\<close>

text \<open>Every operation keeps the ledger invariant.\<close>

lemma ledger_ok_movements:
  "ledger_ok (Some ((getData st)\<lparr>movements := ms\<rparr>)) = ledger_ok st"
  by (simp add: ledger_ok_def rewards_positive_def range_ok_def getData_def storage_get_def)

lemma ledger_ok_badges:
  "ledger_ok (Some ((getData st)\<lparr>unlockedBadges := bs\<rparr>)) = ledger_ok st"
  by (simp add: ledger_ok_def rewards_positive_def range_ok_def getData_def storage_get_def)

lemma ledger_ok_saveData_movements:
  "ledger_ok st \<Longrightarrow> ledger_ok (saveData env st ((getData st)\<lparr>movements := ms\<rparr>))"
  using ledger_ok_movements [where st = st and ms = ms] by (simp add: saveData_def storage_set_def)

lemma ledger_ok_checkAndUnlockBadges:
  "ledger_ok st \<Longrightarrow> ledger_ok (snd (checkAndUnlockBadges env st))"
  using ledger_ok_badges [where st = st]
  by (auto simp: checkAndUnlockBadges_def Let_def saveData_def storage_set_def split: prod.splits)

lemma ledger_ok_addMovementContribution:
  "ledger_ok st \<Longrightarrow> ledger_ok (addMovementContribution env movementId weekKey amount st)"
  by (auto simp: addMovementContribution_def Let_def ledger_ok_saveData_movements
      split: option.splits)

lemma ledger_ok_contributions_loop:
  "ledger_ok st \<Longrightarrow> ledger_ok (contributions_loop env now weekKey amount ms st)"
  by (induction ms arbitrary: st) (auto intro: ledger_ok_addMovementContribution)

lemma ledger_ok_updateRewardRange:
  assumes "ledger_ok st"
  shows "ledger_ok (snd (updateRewardRange env lo hi st))"
proof (cases "lo > hi \<or> lo < 1")
  case True
  then show ?thesis using assms by (simp add: updateRewardRange_def)
next
  case False
  then have "ledger_ok (Some ((getData st)\<lparr>minReward := lo, maxReward := hi\<rparr>))"
    using assms
    by (simp add: ledger_ok_def rewards_positive_def range_ok_def getData_def storage_get_def)
  then show ?thesis
    using False assms by (simp add: updateRewardRange_def Let_def saveData_def storage_set_def)
qed

lemma ledger_ok_perform:
  assumes "ledger_ok st" and "unit_draws action"
  shows "ledger_ok (perform env action st)"
proof (cases action)
  case (CompleteWorkout u dateKey)
  then show ?thesis
    using assms invariants_step [of st u env dateKey]
    by (simp add: ledger_ok_def unit_draws_def)
next
  case (UpdateRewardRange lo hi)
  then show ?thesis using assms(1) by (simp add: ledger_ok_updateRewardRange)
next
  case CheckAndUnlockBadges
  then show ?thesis using assms(1) by (simp add: ledger_ok_checkAndUnlockBadges)
next
  case (CreateMovement now nowIso name charityName desc start finish)
  then show ?thesis
    using assms(1)
    by (auto simp: createMovement_def Let_def ledger_ok_checkAndUnlockBadges
        ledger_ok_saveData_movements split: option.splits)
next
  case (JoinMovement movementId)
  then show ?thesis
    using assms(1)
    by (auto simp: joinMovement_def Let_def ledger_ok_saveData_movements split: option.splits)
next
  case (LeaveMovement movementId)
  then show ?thesis
    using assms(1)
    by (auto simp: leaveMovement_def Let_def ledger_ok_saveData_movements split: option.splits)
next
  case (AddMovementContribution movementId weekKey amount)
  then show ?thesis using assms(1) by (simp add: ledger_ok_addMovementContribution)
next
  case (UpdateMovementContributions now weekKey amount)
  then show ?thesis
    using assms(1) by (simp add: updateMovementContributions_def ledger_ok_contributions_loop)
qed

lemma ledger_ok_run:
  "ledger_ok st \<Longrightarrow> list_all unit_draws ops \<Longrightarrow> ledger_ok (run env ops st)"
  by (induction ops arbitrary: st) (auto intro: ledger_ok_perform)

lemma ledger_ok_empty: "ledger_ok None"
  by (simp add: ledger_ok_def rewards_positive_def range_ok_def getData_def storage_get_def
      defaultData_def)

text \<open>
  C4. For every document with integer bounds \<open>1 \<le> minReward \<le> maxReward\<close> and every
  draw \<open>0 \<le> u < 1\<close>, a reward \<open>r\<close> issued by \<open>completeWorkout\<close> lies between the two
  bounds read by that call, so it is positive; it is the value the call writes into
  \<open>weeklyRewards\<close> under the week key of the date, and positive stored rewards stay
  positive. Hence every store reached from the empty one by the operations, with
  draws in \<open>[0, 1)\<close>, holds positive rewards only, and bounds \<open>1 \<le> minReward \<le> maxReward\<close>.
\<close>

theorem issued_reward_within_range:
  assumes "range_ok (getData st)" and "0 \<le> u" and "u < 1"
    and "reward (fst (completeWorkout env u dateKey st)) = Some r"
  shows "minReward (getData st) \<le> r \<and> r \<le> maxReward (getData st) \<and> 0 < r
    \<and> obj_get (weeklyRewards (fst (completeWorkout_data env u dateKey (getData st))))
          (weekKeyOf env dateKey) = Some r
    \<and> (rewards_positive (getData st) \<longrightarrow>
          rewards_positive (getData (snd (completeWorkout env u dateKey st))))
    \<and> (list_all unit_draws ops \<longrightarrow> ledger_ok (run env ops None))"
proof -
  obtain data wc where d: "completeWorkout_data env u dateKey (getData st) = (data, wc, Some r)"
    using assms(4) by (cases "completeWorkout_data env u dateKey (getData st)")
      (auto simp: completeWorkout_reward)
  from completeWorkout_data_reward [OF d]
  have r: "r = randomInt (minReward (getData st)) (maxReward (getData st)) u"
    and w: "weeklyRewards data = obj_set (weeklyRewards (getData st)) (weekKeyOf env dateKey) r"
    by blast+
  have "minReward (getData st) \<le> r \<and> r \<le> maxReward (getData st)"
    using randomInt_bounds [of "minReward (getData st)" "maxReward (getData st)" u] assms(1-3) r
    by (simp add: range_ok_def)
  moreover from this have "0 < r" using assms(1) by (simp add: range_ok_def)
  moreover have "obj_get (weeklyRewards data) (weekKeyOf env dateKey) = Some r"
    by (simp add: w obj_get_obj_set)
  moreover have "rewards_positive (getData st) \<longrightarrow>
      rewards_positive (getData (snd (completeWorkout env u dateKey st)))"
    using invariants_step [OF _ assms(1-3)] by blast
  moreover have "list_all unit_draws ops \<longrightarrow> ledger_ok (run env ops None)"
    using ledger_ok_run [OF ledger_ok_empty] by blast
  ultimately show ?thesis using d by auto
qed

theorem issued_reward_within_range_witness:
  "range_ok (getData (Some rewarded_doc)) \<and> rewards_positive (getData (Some rewarded_doc))
   \<and> reward (fst (completeWorkout open_platform (1 / 2) ''2026-1-10'' (Some rewarded_doc))) = Some 3
   \<and> minReward (getData (Some rewarded_doc)) \<le> 3 \<and> 3 \<le> maxReward (getData (Some rewarded_doc))
   \<and> rewards_positive (getData (snd (completeWorkout open_platform (1 / 2) ''2026-1-10''
        (Some rewarded_doc))))
   \<and> list_all unit_draws [UpdateRewardRange 2 9, CompleteWorkout (1 / 2) ''2026-1-10'']
   \<and> ledger_ok (run open_platform
        [UpdateRewardRange 2 9, CompleteWorkout (1 / 2) ''2026-1-10''] None)"
proof -
  have p: "rewards_positive (getData (Some rewarded_doc))"
    and r: "range_ok (getData (Some rewarded_doc))"
    by (simp_all add: rewards_positive_def range_ok_def positive_entry_def example_docs
        store_simps)
  have i: "reward (fst (completeWorkout open_platform (1 / 2) ''2026-1-10'' (Some rewarded_doc)))
      = Some 3"
    by (simp add: rewarded_doc_call_1)
  have u: "(0::real) \<le> 1 / 2" "(1 / 2 :: real) < 1" by simp_all
  have o: "list_all unit_draws [UpdateRewardRange 2 9, CompleteWorkout (1 / 2) ''2026-1-10'']"
    by (simp add: unit_draws_def)
  from issued_reward_within_range [OF r u i,
      where ops = "[UpdateRewardRange 2 9, CompleteWorkout (1 / 2) ''2026-1-10'']"] p r i o
  show ?thesis by blast
qed

section \<open>Reward range configuration\<close>

text \<open>
  C7. \<open>updateRewardRange(min, max)\<close> returns \<open>false\<close> and leaves the whole store as it
  was when \<open>min > max\<close> or \<open>min < 1\<close>. Otherwise it returns \<open>true\<close>, never changes
  \<open>weeklyRewards\<close>, and, on a store that takes the write, the stored document is the
  loaded one with exactly the two bounds replaced.
\<close>

theorem updateRewardRange_contract:
  "(lo > hi \<or> lo < 1 \<longrightarrow> updateRewardRange env lo hi st = (False, st))
   \<and> (\<not> (lo > hi \<or> lo < 1) \<longrightarrow>
        fst (updateRewardRange env lo hi st) = True
        \<and> weeklyRewards (getData (snd (updateRewardRange env lo hi st)))
            = weeklyRewards (getData st)
        \<and> (storage_accepts env ((getData st)\<lparr>minReward := lo, maxReward := hi\<rparr>) \<longrightarrow>
             snd (updateRewardRange env lo hi st)
               = Some ((getData st)\<lparr>minReward := lo, maxReward := hi\<rparr>)))"
  by (simp add: updateRewardRange_def Let_def getData_saveData saveData_taken)

theorem updateRewardRange_contract_witness:
  "updateRewardRange open_platform 5 1 (Some rewarded_doc) = (False, Some rewarded_doc)
   \<and> updateRewardRange open_platform 0 3 (Some rewarded_doc) = (False, Some rewarded_doc)
   \<and> updateRewardRange open_platform 2 9 (Some rewarded_doc)
       = (True, Some (rewarded_doc\<lparr>minReward := 2, maxReward := 9\<rparr>))
   \<and> weeklyRewards (rewarded_doc\<lparr>minReward := 2, maxReward := 9\<rparr>) = [(''2025-12-week2'', 4)]"
proof -
  have acc: "storage_accepts open_platform d" for d
    by (simp add: open_platform_simps)
  have g: "getData (Some rewarded_doc) = rewarded_doc"
    by (simp add: getData_def storage_get_def)
  from updateRewardRange_contract [where lo = 5 and hi = 1 and env = open_platform
      and st = "Some rewarded_doc"]
  have a: "updateRewardRange open_platform 5 1 (Some rewarded_doc) = (False, Some rewarded_doc)"
    by simp
  from updateRewardRange_contract [where lo = 0 and hi = 3 and env = open_platform
      and st = "Some rewarded_doc"]
  have b: "updateRewardRange open_platform 0 3 (Some rewarded_doc) = (False, Some rewarded_doc)"
    by simp
  from updateRewardRange_contract [where lo = 2 and hi = 9 and env = open_platform
      and st = "Some rewarded_doc"] acc
  have c: "updateRewardRange open_platform 2 9 (Some rewarded_doc)
       = (True, Some (rewarded_doc\<lparr>minReward := 2, maxReward := 9\<rparr>))"
    by (simp add: g prod_eq_iff)
  have d: "weeklyRewards (rewarded_doc\<lparr>minReward := 2, maxReward := 9\<rparr>) = [(''2025-12-week2'', 4)]"
    by (simp add: rewarded_doc_def)
  from a b c d show ?thesis by simp
qed

section \<open>Movement invariants\<close>

lemma list_all_map_preserved:
  "list_all Q xs \<Longrightarrow> (\<And>x. Q x \<Longrightarrow> Q (f x)) \<Longrightarrow> list_all Q (map f xs)"
  by (induction xs) auto

lemma list_all_update_first:
  "list_all Q xs \<Longrightarrow> find p xs = Some m \<Longrightarrow> Q (f m) \<Longrightarrow> list_all Q (update_first p f xs)"
  by (induction xs) (auto split: if_splits)

lemma sum_values_update:
  "sum_list (map snd (AList.update k v al)) =
     sum_list (map snd al) - (case map_of al k of None \<Rightarrow> 0 | Some c \<Rightarrow> c) + (v :: int)"
  by (induction al) auto

lemma add_contribution_total:
  "totalRaised (add_contribution weekKey amount m) = totalRaised m + amount"
  by (simp add: add_contribution_def Let_def)

lemma add_contribution_sum:
  "sum_list (obj_values (weeklyContributions (add_contribution weekKey amount m))) =
     sum_list (obj_values (weeklyContributions m)) + amount"
  by (auto simp: add_contribution_def Let_def obj_values_def obj_set_def obj_get_def
      truthy_num_def sum_values_update update_conv' split: option.splits)

lemma add_contribution_consistent:
  "total_consistent m \<Longrightarrow> total_consistent (add_contribution weekKey amount m)"
  by (simp add: total_consistent_def add_contribution_total add_contribution_sum)

lemma add_contribution_members:
  "members (add_contribution weekKey amount m) = members m"
  by (simp add: add_contribution_def Let_def)

text \<open>What each operation does to the list of movements of the document it saves.\<close>

lemma completeWorkout_data_movements:
  "movements (fst (completeWorkout_data env u dateKey data0)) = movements data0
   \<or> (\<exists>k r. movements (fst (completeWorkout_data env u dateKey data0))
        = map (contribute env dateKey k r) (movements data0))"
  by (auto simp: completeWorkout_data_def Let_def split: prod.splits)

lemma checkAndUnlockBadges_getData:
  "getData (snd (checkAndUnlockBadges env st)) = getData st
   \<or> (\<exists>unlocked. getData (snd (checkAndUnlockBadges env st))
         = (getData st)\<lparr>unlockedBadges := unlocked\<rparr>)"
  by (auto simp: checkAndUnlockBadges_def Let_def getData_saveData split: prod.splits)

lemma checkAndUnlockBadges_movements:
  "movements (getData (snd (checkAndUnlockBadges env st))) = movements (getData st)"
  using checkAndUnlockBadges_getData [of env st] by auto

lemma completeWorkout_movements:
  "movements (getData (snd (completeWorkout env u dateKey st))) = movements (getData st)
   \<or> (\<exists>k r. movements (getData (snd (completeWorkout env u dateKey st)))
        = map (contribute env dateKey k r) (movements (getData st)))"
  using completeWorkout_data_movements [of env u dateKey "getData st"]
  by (auto simp: completeWorkout_store getData_saveData)

lemma updateRewardRange_movements:
  "movements (getData (snd (updateRewardRange env lo hi st))) = movements (getData st)"
  by (simp add: updateRewardRange_def Let_def getData_saveData)

lemma createMovement_movements:
  "movements (getData (snd (createMovement env now nowIso name charityName desc start end st)))
     = movements (getData st)
   \<or> movements (getData (snd (createMovement env now nowIso name charityName desc start end st)))
     = movements (getData st) @
         [\<lparr>movement_id = now, movement_name = name, charity = charityName,
           description = desc, startDate = start, endDate = end,
           creator = ''You'', members = [''You''], totalRaised = 0,
           weeklyContributions = [], createdAt = nowIso\<rparr>]"
  by (auto simp: createMovement_def Let_def checkAndUnlockBadges_movements getData_saveData
      split: option.splits)

lemma joinMovement_movements:
  "movements (getData (snd (joinMovement env movementId st))) = movements (getData st)
   \<or> (\<exists>m. find (\<lambda>m. movement_id m = movementId) (movements (getData st)) = Some m
         \<and> ''You'' \<notin> set (members m)
         \<and> movements (getData (snd (joinMovement env movementId st)))
             = update_first (\<lambda>m. movement_id m = movementId)
                 (\<lambda>m. m\<lparr>members := members m @ [''You'']\<rparr>) (movements (getData st)))"
  by (auto simp: joinMovement_def Let_def getData_saveData split: option.splits)

lemma leaveMovement_movements:
  "movements (getData (snd (leaveMovement env movementId st))) = movements (getData st)
   \<or> (\<exists>m. find (\<lambda>m. movement_id m = movementId) (movements (getData st)) = Some m
         \<and> movements (getData (snd (leaveMovement env movementId st)))
             = update_first (\<lambda>m. movement_id m = movementId)
                 (\<lambda>m. m\<lparr>members := remove1 ''You'' (members m)\<rparr>) (movements (getData st)))"
  by (auto simp: leaveMovement_def Let_def getData_saveData split: option.splits)

lemma addMovementContribution_movements:
  "movements (getData (addMovementContribution env movementId weekKey amount st))
     = movements (getData st)
   \<or> (\<exists>m. find (\<lambda>m. movement_id m = movementId) (movements (getData st)) = Some m
         \<and> movements (getData (addMovementContribution env movementId weekKey amount st))
             = update_first (\<lambda>m. movement_id m = movementId)
                 (add_contribution weekKey amount) (movements (getData st)))"
  by (auto simp: addMovementContribution_def Let_def getData_saveData split: option.splits)

text \<open>
  A property of single movements that the credit keeps, that a new movement has, that
  joining keeps for a movement without the user and that leaving keeps, holds for
  every stored movement after each operation when it held before.
\<close>

lemma perform_preserves:
  assumes add: "\<And>k a m. Q m \<Longrightarrow> Q (add_contribution k a m)"
    and new: "\<And>now nowIso name charityName desc start end.
      Q \<lparr>movement_id = now, movement_name = name, charity = charityName,
         description = desc, startDate = start, endDate = end,
         creator = ''You'', members = [''You''], totalRaised = 0,
         weeklyContributions = [], createdAt = nowIso\<rparr>"
    and join: "\<And>m. Q m \<Longrightarrow> ''You'' \<notin> set (members m) \<Longrightarrow>
      Q (m\<lparr>members := members m @ [''You'']\<rparr>)"
    and leave: "\<And>m. Q m \<Longrightarrow> Q (m\<lparr>members := remove1 ''You'' (members m)\<rparr>)"
    and inv: "list_all Q (movements (getData st))"
  shows "list_all Q (movements (getData (perform env action st)))"
proof -
  have found: "Q m" if "find p (movements (getData st)) = Some m" for p m
    using that inv by (auto simp: list_all_iff find_Some_iff)
  have contribution_step: "list_all Q (movements (getData (addMovementContribution env i k a s)))"
    if "list_all Q (movements (getData s))" for i k a s
  proof -
    have "Q m" if "find p (movements (getData s)) = Some m" for p m
      using that \<open>list_all Q (movements (getData s))\<close> by (auto simp: list_all_iff find_Some_iff)
    then show ?thesis
      using addMovementContribution_movements [of env i k a s] that
      by (auto intro!: list_all_update_first add)
  qed
  have loop: "list_all Q (movements (getData (contributions_loop env now k a ms s)))"
    if "list_all Q (movements (getData s))" for now k a ms s
    using that by (induction ms arbitrary: s) (auto intro: contribution_step)
  show ?thesis
  proof (cases action)
    case (CompleteWorkout u dateKey)
    have "Q (contribute env dateKey k r m)" if "Q m" for k r m
      using that by (simp add: contribute_def add)
    then show ?thesis
      using completeWorkout_movements [of env u dateKey st] inv CompleteWorkout
      by (auto intro!: list_all_map_preserved)
  next
    case (UpdateRewardRange lo hi)
    then show ?thesis using inv by (simp add: updateRewardRange_movements)
  next
    case CheckAndUnlockBadges
    then show ?thesis using inv by (simp add: checkAndUnlockBadges_movements)
  next
    case (CreateMovement now nowIso name charityName desc start finish)
    then show ?thesis
      using createMovement_movements [of env now nowIso name charityName desc start finish st] inv new
      by auto
  next
    case (JoinMovement movementId)
    then show ?thesis
      using joinMovement_movements [of env movementId st] inv found
      by (auto intro!: list_all_update_first join)
  next
    case (LeaveMovement movementId)
    then show ?thesis
      using leaveMovement_movements [of env movementId st] inv found
      by (auto intro!: list_all_update_first leave)
  next
    case (AddMovementContribution movementId weekKey amount)
    then show ?thesis using contribution_step [OF inv] by simp
  next
    case (UpdateMovementContributions now weekKey amount)
    then show ?thesis using loop [OF inv] by (simp add: updateMovementContributions_def)
  qed
qed

section \<open>Reward fan-out\<close>

lemmas campaign_docs =
  walkers_def strangers_def late_starters_def campaign_doc_def campaign_doc_1_def

lemma example_dates:
  "zone_date_parse z ''2026-1-10'' = Some (1768003200000 - z)"
  "zone_date_parse z ''2026-01-01'' = Some 1767225600000"
  "zone_date_parse z ''2026-01-10'' = Some 1768003200000"
  "zone_date_parse z ''2026-01-11'' = Some 1768089600000"
  "zone_date_parse z ''2026-01-31'' = Some 1769817600000"
  by (simp_all add: zone_date_parse_def civil_of_def day_number_def iso_date_only_def
      digit_of_def days_from_civil_def)

lemma campaign_contribute_member:
  "contribute open_platform ''2026-1-10'' ''2026-1-week2'' 3 walkers
     = walkers\<lparr>weeklyContributions := [(''2025-12-week2'', 4), (''2026-1-week2'', 3)],
               totalRaised := 7\<rparr>"
  by (simp add: contribute_def isMovementActiveForDate_def add_contribution_def Let_def
      example_dates campaign_docs store_simps)

lemma campaign_contribute_stranger:
  "contribute open_platform ''2026-1-10'' ''2026-1-week2'' 3 strangers = strangers"
  by (simp add: contribute_def isMovementActiveForDate_def add_contribution_def Let_def
      example_dates campaign_docs store_simps)

lemma campaign_contribute_late:
  "contribute open_platform ''2026-1-10'' ''2026-1-week2'' 3 late_starters = late_starters"
  by (simp add: contribute_def isMovementActiveForDate_def add_contribution_def Let_def
      example_dates campaign_docs store_simps)

lemma campaign_call:
  "completeWorkout open_platform (1 / 2) ''2026-1-10'' (Some campaign_doc) =
     (\<lparr>success = True, weekCompleted = True, reward = Some 3\<rparr>, Some campaign_doc_1)"
  by (simp add: completeWorkout_def open_seventh_day randomInt_examples
      campaign_contribute_member campaign_contribute_stranger campaign_contribute_late
      campaign_doc_def campaign_doc_1_def example_docs store_simps)

text \<open>The movements that start or end on the day of the workout.\<close>

lemmas boundary_docs =
  starting_def ending_def walkers_def starting_doc_def starting_doc_1_def ending_doc_def
  ending_doc_1_def

lemma boundary_windows:
  "window_contains starting ''2026-1-10''" "window_contains ending ''2026-1-10''"
  by (simp_all add: window_contains_def civil_of_def day_number_def digit_of_def
      days_from_civil_def boundary_docs)

lemma starting_contribute_east:
  "contribute berlin_platform ''2026-1-10'' ''2026-1-week2'' 3 starting = starting"
  by (simp add: contribute_def isMovementActiveForDate_def example_dates boundary_docs
      berlin_platform_simps)

lemma ending_contribute_west:
  "contribute new_york_platform ''2026-1-10'' ''2026-1-week2'' 3 ending = ending"
  by (simp add: contribute_def isMovementActiveForDate_def example_dates boundary_docs
      new_york_platform_simps)

lemma starting_contribute_utc:
  "contribute open_platform ''2026-1-10'' ''2026-1-week2'' 3 starting
     = starting\<lparr>weeklyContributions := [(''2025-12-week2'', 4), (''2026-1-week2'', 3)],
                totalRaised := 7\<rparr>"
  by (simp add: contribute_def isMovementActiveForDate_def add_contribution_def Let_def
      example_dates boundary_docs store_simps)

lemmas berlin_seventh_day =
  seventh_day_call [where env = berlin_platform, OF example_zones(3)]

lemmas new_york_seventh_day =
  seventh_day_call [where env = new_york_platform, OF example_zones(4)]

lemma starting_call_east:
  "completeWorkout berlin_platform (1 / 2) ''2026-1-10'' (Some starting_doc) =
     (\<lparr>success = True, weekCompleted = True, reward = Some 3\<rparr>, Some starting_doc_1)"
  by (simp add: completeWorkout_def berlin_seventh_day randomInt_examples
      starting_contribute_east starting_doc_def starting_doc_1_def example_docs
      getData_def storage_get_def saveData_def storage_set_def berlin_platform_simps
      obj_set_def obj_get_def truthy_num_def)

lemma ending_call_west:
  "completeWorkout new_york_platform (1 / 2) ''2026-1-10'' (Some ending_doc) =
     (\<lparr>success = True, weekCompleted = True, reward = Some 3\<rparr>, Some ending_doc_1)"
  by (simp add: completeWorkout_def new_york_seventh_day randomInt_examples
      ending_contribute_west ending_doc_def ending_doc_1_def example_docs
      getData_def storage_get_def saveData_def storage_set_def new_york_platform_simps
      obj_set_def obj_get_def truthy_num_def)

lemma starting_call_utc:
  "completeWorkout open_platform (1 / 2) ''2026-1-10'' (Some starting_doc) =
     (\<lparr>success = True, weekCompleted = True, reward = Some 3\<rparr>,
      Some (starting_doc_1\<lparr>movements :=
        [starting\<lparr>weeklyContributions := [(''2025-12-week2'', 4), (''2026-1-week2'', 3)],
                  totalRaised := 7\<rparr>]\<rparr>))"
  by (simp add: completeWorkout_def open_seventh_day randomInt_examples
      starting_contribute_utc starting_doc_def starting_doc_1_def example_docs store_simps)

text \<open>
  C5. When a \<open>completeWorkout(d)\<close> call issues a reward \<open>r\<close>, every movement that
  lists the local user and whose window from \<open>startDate\<close> to \<open>endDate\<close> contains the
  date \<open>d\<close> should be credited with \<open>r\<close>. The code compares the times the platform
  parses from the three strings. The callers build \<open>d\<close> unpadded (\<open>2026-1-10\<close>), which
  the engines read as local midnight, while the movement dates come from date inputs
  in the ISO form (\<open>2026-01-10\<close>), read as midnight UTC. An hour east of UTC the
  workout of the day a movement starts falls before the start: the call issues the
  reward 3 and the movement, which lists the user and whose window contains the day,
  keeps its total of 4. Five hours west of UTC the same happens on the day a movement
  ends. On UTC the movement that starts on the day is credited and its total becomes 7.
\<close>

theorem fan_out_misses_boundary_days:
  "''You'' \<in> set (members starting)
   \<and> window_contains starting ''2026-1-10''
   \<and> completeWorkout berlin_platform (1 / 2) ''2026-1-10'' (Some starting_doc) =
       (\<lparr>success = True, weekCompleted = True, reward = Some 3\<rparr>, Some starting_doc_1)
   \<and> movements starting_doc = [starting]
   \<and> movements starting_doc_1 = [starting]
   \<and> totalRaised starting = 4
   \<and> obj_get (weeklyContributions starting) ''2026-1-week2'' = None
   \<and> ''You'' \<in> set (members ending)
   \<and> window_contains ending ''2026-1-10''
   \<and> completeWorkout new_york_platform (1 / 2) ''2026-1-10'' (Some ending_doc) =
       (\<lparr>success = True, weekCompleted = True, reward = Some 3\<rparr>, Some ending_doc_1)
   \<and> movements ending_doc = [ending]
   \<and> movements ending_doc_1 = [ending]
   \<and> map totalRaised
        (movements (getData (snd (completeWorkout open_platform (1 / 2) ''2026-1-10''
           (Some starting_doc))))) = [7]"
proof -
  have "''You'' \<in> set (members starting)" "''You'' \<in> set (members ending)"
    "totalRaised starting = 4"
    "obj_get (weeklyContributions starting) ''2026-1-week2'' = None"
    "movements starting_doc = [starting]" "movements starting_doc_1 = [starting]"
    "movements ending_doc = [ending]" "movements ending_doc_1 = [ending]"
    by (simp_all add: starting_def ending_def walkers_def starting_doc_def starting_doc_1_def
        ending_doc_def ending_doc_1_def obj_get_def)
  moreover have "map totalRaised
        (movements (getData (snd (completeWorkout open_platform (1 / 2) ''2026-1-10''
           (Some starting_doc))))) = [7]"
    by (simp add: starting_call_utc getData_def storage_get_def)
  ultimately show ?thesis
    using boundary_windows starting_call_east ending_call_west by simp
qed

text \<open>
  C6. For every stored movement \<open>totalRaised\<close> is the sum of the values of
  \<open>weeklyContributions\<close> after each mutating operation (\<open>createMovement\<close>,
  \<open>joinMovement\<close>, \<open>leaveMovement\<close>, \<open>completeWorkout\<close>, \<open>addMovementContribution\<close>, and
  the other operations of the store), provided it was so before the operation.
\<close>

theorem movement_totals_stay_consistent:
  "totals_consistent st \<Longrightarrow> totals_consistent (perform env action st)"
  unfolding totals_consistent_def
proof (rule perform_preserves)
  show "total_consistent (add_contribution k a m)" if "total_consistent m" for k a m
    using that by (rule add_contribution_consistent)
qed (simp_all add: total_consistent_def obj_values_def)

theorem movement_totals_stay_consistent_witness:
  "totals_consistent (Some campaign_doc)
   \<and> perform open_platform (CompleteWorkout (1 / 2) ''2026-1-10'') (Some campaign_doc)
       = Some campaign_doc_1
   \<and> totals_consistent (Some campaign_doc_1)
   \<and> totalRaised (hd (movements campaign_doc_1)) = 7
   \<and> obj_values (weeklyContributions (hd (movements campaign_doc_1))) = [4, 3]"
proof -
  have a: "totals_consistent (Some campaign_doc)"
    by (simp add: totals_consistent_def total_consistent_def obj_values_def campaign_docs
        getData_def storage_get_def)
  have b: "perform open_platform (CompleteWorkout (1 / 2) ''2026-1-10'') (Some campaign_doc)
       = Some campaign_doc_1"
    by (simp add: campaign_call)
  from movement_totals_stay_consistent [OF a, of open_platform "CompleteWorkout (1 / 2) ''2026-1-10''"]
  have c: "totals_consistent (Some campaign_doc_1)"
    by (simp only: b)
  have d: "totalRaised (hd (movements campaign_doc_1)) = 7"
    "obj_values (weeklyContributions (hd (movements campaign_doc_1))) = [4, 3]"
    by (simp_all add: campaign_docs obj_values_def)
  from a b c d show ?thesis by simp
qed

section \<open>Membership\<close>

lemma count_list_remove1_le: "count_list (remove1 x xs) y \<le> count_list xs y"
  by (induction xs) auto

lemma you_once_join:
  "you_once m \<Longrightarrow> ''You'' \<notin> set (members m) \<Longrightarrow> you_once (m\<lparr>members := members m @ [''You'']\<rparr>)"
  by (simp add: you_once_def count_list_0_iff)

lemma you_once_leave: "you_once m \<Longrightarrow> you_once (m\<lparr>members := remove1 ''You'' (members m)\<rparr>)"
  using count_list_remove1_le [of "''You''" "members m" "''You''"]
  by (simp add: you_once_def)

lemma members_ok_perform: "members_ok st \<Longrightarrow> members_ok (perform env action st)"
  unfolding members_ok_def
proof (rule perform_preserves)
  show "you_once (add_contribution k a m)" if "you_once m" for k a m
    using that by (simp add: you_once_def add_contribution_members)
qed (simp_all add: you_once_join you_once_leave, simp add: you_once_def)

lemma members_ok_run: "members_ok st \<Longrightarrow> members_ok (run env ops st)"
  by (induction ops arbitrary: st) (auto intro: members_ok_perform)

lemma createMovement_members:
  "createMovement env now nowIso name charityName desc start end st = (Inr m, st')
     \<Longrightarrow> members m = [''You'']"
  by (auto simp: createMovement_def Let_def split: option.splits if_splits)

lemma joinMovement_member:
  "find (\<lambda>m. movement_id m = movementId) (movements (getData st)) = Some m
     \<Longrightarrow> ''You'' \<in> set (members m) \<Longrightarrow> joinMovement env movementId st = (False, st)"
  by (simp add: joinMovement_def)

lemma fan_out_credits_once:
  "list_all2 (\<lambda>m m'. totalRaised m' = totalRaised m \<or> totalRaised m' = totalRaised m + r)
     ms (map (contribute env dateKey k r) ms)"
  by (induction ms) (auto simp: contribute_def add_contribution_total)

lemma streak_no_rewards: "weeklyRewards d = [] \<Longrightarrow> getCurrentStreak (Some d) = 0"
  by (simp add: getCurrentStreak_def getData_def storage_get_def obj_keys_def)

lemmas badge_simps =
  checkAndUnlockBadges_def getCurrentProgress_def getTotalCompletedDays_def
  getTotalEarnings_def streak_no_rewards shouldUnlockBadge_def BADGE_DEFINITIONS_def
  obj_keys_def obj_values_def Let_def

lemma founded_badges:
  "checkAndUnlockBadges open_platform (Some founded_doc) =
     ([\<lparr>badge_id = ''movement_maker'', badge_name = ''Movement Maker'', requirement = 1,
        badge_type = Movements\<rparr>], Some created_doc)"
  by (simp add: badge_simps founded_doc_def new_walkers_def created_doc_def defaultData_def
      store_simps)

lemma created_call:
  "createMovement open_platform 17 ''2026-01-01T08:00'' ''Walkers'' ''Red Cross''
     ''Walk every day'' ''2026-01-01'' ''2026-01-31'' None = (Inr new_walkers, Some created_doc)"
proof -
  have "saveData open_platform None (getData None\<lparr>movements := movements (getData None) @ [new_walkers]\<rparr>)
      = Some founded_doc"
    by (simp add: founded_doc_def defaultData_def store_simps)
  then show ?thesis
    by (simp add: createMovement_def isValidMovementName_def isValidMovementDescription_def
      isValidDateRange_def trim_def is_space_def example_dates Let_def open_platform_simps
      founded_badges flip: new_walkers_def)
qed

lemma created_join:
  "joinMovement open_platform 17 (Some created_doc) = (False, Some created_doc)"
  by (simp add: joinMovement_def Let_def created_doc_def new_walkers_def store_simps)

lemma created_leave:
  "leaveMovement open_platform 17 (Some created_doc) = (True, Some left_doc)"
  by (simp add: leaveMovement_def Let_def left_doc_def created_doc_def new_walkers_def store_simps)

lemma left_join:
  "joinMovement open_platform 17 (Some left_doc) = (True, Some created_doc)"
  by (simp add: joinMovement_def Let_def left_doc_def created_doc_def new_walkers_def store_simps)

text \<open>
  C10. Every movement reachable from the empty store through the local operations
  lists the local user \<open>'You'\<close> at most once, and each operation keeps that property:
  \<open>createMovement\<close> creates the movement with the members \<open>['You']\<close>; \<open>joinMovement\<close>
  on a movement that lists the user returns \<open>false\<close> and leaves the store as it was,
  and it returns \<open>true\<close> only for a movement that did not list the user; no other
  operation adds members. One reward fan-out walks the movements once, so it raises
  the total of each movement by the reward or not at all.
\<close>

theorem local_user_listed_once:
  "members_ok (run env ops None)
   \<and> (members_ok st \<longrightarrow> members_ok (perform env action st))
   \<and> (createMovement env now nowIso name charityName desc start finish st = (Inr m, st') \<longrightarrow>
        members m = [''You''])
   \<and> (find (\<lambda>x. movement_id x = movementId) (movements (getData st)) = Some joined
        \<and> ''You'' \<in> set (members joined) \<longrightarrow>
        joinMovement env movementId st = (False, st))
   \<and> (fst (joinMovement env movementId st) \<longrightarrow>
        (\<exists>x. find (\<lambda>x. movement_id x = movementId) (movements (getData st)) = Some x
           \<and> ''You'' \<notin> set (members x)))
   \<and> (reward (fst (completeWorkout env u dateKey st)) = Some r \<longrightarrow>
        list_all2 (\<lambda>x x'. totalRaised x' = totalRaised x \<or> totalRaised x' = totalRaised x + r)
          (movements (getData st))
          (movements (fst (completeWorkout_data env u dateKey (getData st)))))"
proof (intro conjI impI)
  have "members_ok None"
    by (simp add: members_ok_def getData_def storage_get_def defaultData_def)
  then show "members_ok (run env ops None)" by (rule members_ok_run)
next
  assume "members_ok st"
  then show "members_ok (perform env action st)" by (rule members_ok_perform)
next
  assume "createMovement env now nowIso name charityName desc start finish st = (Inr m, st')"
  then show "members m = [''You'']" by (rule createMovement_members)
next
  assume "find (\<lambda>x. movement_id x = movementId) (movements (getData st)) = Some joined
      \<and> ''You'' \<in> set (members joined)"
  then show "joinMovement env movementId st = (False, st)"
    by (simp add: joinMovement_member)
next
  assume "fst (joinMovement env movementId st)"
  then show "\<exists>x. find (\<lambda>x. movement_id x = movementId) (movements (getData st)) = Some x
      \<and> ''You'' \<notin> set (members x)"
    by (auto simp: joinMovement_def Let_def split: option.splits if_splits)
next
  assume "reward (fst (completeWorkout env u dateKey st)) = Some r"
  then obtain data wc where d: "completeWorkout_data env u dateKey (getData st) = (data, wc, Some r)"
    by (cases "completeWorkout_data env u dateKey (getData st)")
      (auto simp: completeWorkout_reward)
  from completeWorkout_data_reward [OF d]
  obtain k where "movements data = map (contribute env dateKey k r) (movements (getData st))"
    by blast
  then show "list_all2 (\<lambda>x x'. totalRaised x' = totalRaised x \<or> totalRaised x' = totalRaised x + r)
      (movements (getData st)) (movements (fst (completeWorkout_data env u dateKey (getData st))))"
    using d fan_out_credits_once [of r "movements (getData st)" env dateKey k] by simp
qed

theorem local_user_listed_once_witness:
  "run open_platform
     [CreateMovement 17 ''2026-01-01T08:00'' ''Walkers'' ''Red Cross'' ''Walk every day''
        ''2026-01-01'' ''2026-01-31'',
      JoinMovement 17, LeaveMovement 17, JoinMovement 17] None = Some created_doc
   \<and> members_ok (Some created_doc)
   \<and> members (hd (movements created_doc)) = [''You'']
   \<and> members_ok (Some left_doc)
   \<and> members_ok (perform open_platform (JoinMovement 17) (Some left_doc))
   \<and> members new_walkers = [''You'']
   \<and> joinMovement open_platform 17 (Some created_doc) = (False, Some created_doc)
   \<and> fst (joinMovement open_platform 17 (Some left_doc))
   \<and> list_all2 (\<lambda>x x'. totalRaised x' = totalRaised x \<or> totalRaised x' = totalRaised x + 3)
        (movements (getData (Some campaign_doc)))
        (movements (fst (completeWorkout_data open_platform (1 / 2) ''2026-1-10''
           (getData (Some campaign_doc)))))"
proof -
  let ?ops = "[CreateMovement 17 ''2026-01-01T08:00'' ''Walkers'' ''Red Cross'' ''Walk every day''
        ''2026-01-01'' ''2026-01-31'', JoinMovement 17, LeaveMovement 17, JoinMovement 17]"
  have run: "run open_platform ?ops None = Some created_doc"
    by (simp add: created_call created_join created_leave left_join)
  have f: "find (\<lambda>x. movement_id x = 17) (movements (getData (Some created_doc))) = Some new_walkers
      \<and> ''You'' \<in> set (members new_walkers)"
    by (simp add: created_doc_def new_walkers_def getData_def storage_get_def)
  have l: "members_ok (Some left_doc)"
    by (simp add: members_ok_def you_once_def left_doc_def getData_def storage_get_def)
  have r: "reward (fst (completeWorkout open_platform (1 / 2) ''2026-1-10'' (Some campaign_doc))) = Some 3"
    by (simp add: campaign_call)
  note t = local_user_listed_once [where env = open_platform and ops = ?ops
      and st = "Some left_doc" and action = "JoinMovement 17"]
  note t1 = local_user_listed_once [where env = open_platform and ops = "[]" and st = None
      and now = 17 and nowIso = "''2026-01-01T08:00''" and name = "''Walkers''"
      and charityName = "''Red Cross''" and desc = "''Walk every day''"
      and start = "''2026-01-01''" and finish = "''2026-01-31''" and m = new_walkers
      and st' = "Some created_doc"]
  note t2 = local_user_listed_once [where env = open_platform and st = "Some created_doc"
      and movementId = 17 and joined = new_walkers and ops = "[]"]
  note t3 = local_user_listed_once [where env = open_platform and st = "Some campaign_doc"
      and u = "1 / 2" and dateKey = "''2026-1-10''" and r = 3 and ops = "[]"]
  have a: "members_ok (Some created_doc)" using t run by simp
  have b: "members_ok (perform open_platform (JoinMovement 17) (Some left_doc))"
    using t l by blast
  have c: "members new_walkers = [''You'']" using t1 created_call by blast
  have d: "joinMovement open_platform 17 (Some created_doc) = (False, Some created_doc)"
    using t2 f by blast
  have e: "list_all2 (\<lambda>x x'. totalRaised x' = totalRaised x \<or> totalRaised x' = totalRaised x + 3)
        (movements (getData (Some campaign_doc)))
        (movements (fst (completeWorkout_data open_platform (1 / 2) ''2026-1-10''
           (getData (Some campaign_doc)))))"
    using t3 r by blast
  have g: "members (hd (movements created_doc)) = [''You'']"
    by (simp add: created_doc_def new_walkers_def)
  show ?thesis using run a b c d e g l by (simp add: left_join)
qed

section \<open>Badge engine\<close>

lemma unlock_loop_covers:
  "unlock_loop progress bs unlocked newly = (unlocked', newly') \<Longrightarrow>
     set unlocked \<subseteq> set unlocked'
     \<and> (\<forall>b \<in> set bs. shouldUnlockBadge b progress \<longrightarrow> badge_id b \<in> set unlocked')"
proof (induction bs arbitrary: unlocked newly)
  case Nil
  then show ?case by simp
next
  case (Cons b bs)
  show ?case
  proof (cases "badge_id b \<in> set unlocked")
    case True
    with Cons.prems have "unlock_loop progress bs unlocked newly = (unlocked', newly')" by simp
    from Cons.IH [OF this] True show ?thesis by auto
  next
    case False
    show ?thesis
    proof (cases "shouldUnlockBadge b progress")
      case True
      with False Cons.prems
      have "unlock_loop progress bs (unlocked @ [badge_id b]) (newly @ [b]) = (unlocked', newly')"
        by simp
      from Cons.IH [OF this] show ?thesis by auto
    next
      case no: False
      with False Cons.prems have "unlock_loop progress bs unlocked newly = (unlocked', newly')"
        by simp
      from Cons.IH [OF this] no show ?thesis by auto
    qed
  qed
qed

lemma unlock_loop_fixed:
  "\<forall>b \<in> set bs. shouldUnlockBadge b progress \<longrightarrow> badge_id b \<in> set unlocked \<Longrightarrow>
     unlock_loop progress bs unlocked newly = (unlocked, newly)"
  by (induction bs) auto

lemma progress_ignores_badges:
  "getCurrentProgress (Some (data\<lparr>unlockedBadges := unlocked\<rparr>)) (data\<lparr>unlockedBadges := unlocked\<rparr>)
     = getCurrentProgress (Some data) data"
  by (simp add: getCurrentProgress_def getTotalCompletedDays_def getTotalEarnings_def
      getCurrentStreak_def getData_def storage_get_def)

lemma progress_of_loaded:
  "getCurrentProgress st (getData st) = getCurrentProgress (Some (getData st)) (getData st)"
  by (simp add: getCurrentProgress_def getTotalCompletedDays_def getTotalEarnings_def
      getCurrentStreak_def getData_def storage_get_def)

text \<open>
  C8. \<open>checkAndUnlockBadges\<close> is idempotent: on a store that takes its writes, for
  every state a second call right after the first returns no newly unlocked badge
  and leaves the store, hence \<open>unlockedBadges\<close>, as the first call left it.
\<close>

theorem checkAndUnlockBadges_idempotent:
  assumes "\<forall>d. storage_accepts env d"
  shows "fst (checkAndUnlockBadges env (snd (checkAndUnlockBadges env st))) = []
    \<and> snd (checkAndUnlockBadges env (snd (checkAndUnlockBadges env st)))
        = snd (checkAndUnlockBadges env st)
    \<and> unlockedBadges (getData (snd (checkAndUnlockBadges env (snd (checkAndUnlockBadges env st)))))
        = unlockedBadges (getData (snd (checkAndUnlockBadges env st)))"
proof -
  let ?data = "getData st"
  let ?P = "getCurrentProgress st ?data"
  obtain unlocked newly where
    l: "unlock_loop ?P BADGE_DEFINITIONS (unlockedBadges ?data) [] = (unlocked, newly)"
    by (cases "unlock_loop ?P BADGE_DEFINITIONS (unlockedBadges ?data) []") auto
  have first: "checkAndUnlockBadges env st =
      (newly, if newly \<noteq> [] then Some (?data\<lparr>unlockedBadges := unlocked\<rparr>) else st)"
    using l assms by (simp add: checkAndUnlockBadges_def Let_def saveData_taken)
  have second: "checkAndUnlockBadges env (snd (checkAndUnlockBadges env st))
      = ([], snd (checkAndUnlockBadges env st))"
  proof (cases "newly = []")
    case True
    then show ?thesis using first l by (simp add: checkAndUnlockBadges_def Let_def)
  next
    case False
    let ?st1 = "Some (?data\<lparr>unlockedBadges := unlocked\<rparr>)"
    have p: "getCurrentProgress ?st1 (getData ?st1) = ?P"
      using progress_ignores_badges [where data = ?data and unlocked = unlocked]
        progress_of_loaded [of st]
      by (simp add: getData_def storage_get_def)
    have "\<forall>b \<in> set BADGE_DEFINITIONS. shouldUnlockBadge b ?P \<longrightarrow> badge_id b \<in> set unlocked"
      using unlock_loop_covers [OF l] by blast
    then have "unlock_loop ?P BADGE_DEFINITIONS unlocked [] = (unlocked, [])"
      by (rule unlock_loop_fixed)
    then have "checkAndUnlockBadges env ?st1 = ([], ?st1)"
      using p by (simp add: checkAndUnlockBadges_def Let_def getData_def storage_get_def)
    then show ?thesis using first False by simp
  qed
  then show ?thesis by simp
qed

theorem checkAndUnlockBadges_idempotent_witness:
  "map badge_id (fst (checkAndUnlockBadges open_platform (Some founded_doc))) = [''movement_maker'']
   \<and> snd (checkAndUnlockBadges open_platform (Some founded_doc)) = Some created_doc
   \<and> unlockedBadges created_doc = [''movement_maker'']
   \<and> fst (checkAndUnlockBadges open_platform (Some created_doc)) = []
   \<and> snd (checkAndUnlockBadges open_platform (Some created_doc)) = Some created_doc"
proof -
  have acc: "\<forall>d. storage_accepts open_platform d"
    by (simp add: open_platform_simps)
  from checkAndUnlockBadges_idempotent [OF acc, of "Some founded_doc"]
  have "fst (checkAndUnlockBadges open_platform (Some created_doc)) = []
    \<and> snd (checkAndUnlockBadges open_platform (Some created_doc)) = Some created_doc"
    by (simp add: founded_badges)
  then show ?thesis
    by (simp add: founded_badges created_doc_def)
qed

section \<open>Streak\<close>

lemma streak_loop_all_truthy:
  "\<forall>k \<in> set keys. truthy_num (obj_get wr k) \<Longrightarrow> streak_loop wr keys n = n + length keys"
  by (induction keys arbitrary: n) auto

lemma positive_keys_truthy:
  assumes "rewards_positive data" and "k \<in> set (obj_keys (weeklyRewards data))"
  shows "truthy_num (obj_get (weeklyRewards data) k)"
proof -
  from assms(2) obtain v where "map_of (weeklyRewards data) k = Some v"
    by (auto simp: obj_keys_def dest: weak_map_of_SomeI)
  moreover from this have "0 < v"
    using assms(1) by (auto simp: obj_get_def intro: rewards_positive_lookup)
  ultimately show ?thesis by (simp add: truthy_num_def obj_get_def)
qed

text \<open>
  C9. For every state in which every value of \<open>weeklyRewards\<close> is positive, the streak
  computed by \<open>getCurrentStreak\<close> (keys sorted, reversed, scanned until the first falsy
  value) is the number of keys of \<open>weeklyRewards\<close>: the streak metric and the weeks
  metric of the badge engine are equal.
\<close>

theorem streak_equals_weeks:
  assumes "rewards_positive (getData st)"
  shows "getCurrentStreak st = length (obj_keys (weeklyRewards (getData st)))
    \<and> getCurrentProgress st (getData st) Streak = getCurrentProgress st (getData st) Weeks"
proof -
  have "\<forall>k \<in> set (rev (sort (obj_keys (weeklyRewards (getData st))))).
      truthy_num (obj_get (weeklyRewards (getData st)) k)"
    using positive_keys_truthy [OF assms] by simp
  from streak_loop_all_truthy [OF this, of 0]
  have "getCurrentStreak st = length (obj_keys (weeklyRewards (getData st)))"
    by (simp add: getCurrentStreak_def Let_def)
  then show ?thesis by (simp add: getCurrentProgress_def Let_def)
qed

theorem streak_equals_weeks_witness:
  "rewards_positive (getData (Some rewarded_doc_1))
   \<and> obj_keys (weeklyRewards (getData (Some rewarded_doc_1))) = [''2025-12-week2'', ''2026-1-week2'']
   \<and> getCurrentStreak (Some rewarded_doc_1) = 2
   \<and> getCurrentProgress (Some rewarded_doc_1) (getData (Some rewarded_doc_1)) Streak = 2
   \<and> getCurrentProgress (Some rewarded_doc_1) (getData (Some rewarded_doc_1)) Weeks = 2"
proof -
  have p: "rewards_positive (getData (Some rewarded_doc_1))"
    by (simp add: rewards_positive_def positive_entry_def example_docs store_simps)
  have k: "obj_keys (weeklyRewards (getData (Some rewarded_doc_1)))
      = [''2025-12-week2'', ''2026-1-week2'']"
    by (simp add: obj_keys_def example_docs store_simps)
  have w: "getCurrentProgress (Some rewarded_doc_1) (getData (Some rewarded_doc_1)) Weeks = 2"
    by (simp add: getCurrentProgress_def Let_def k)
  from streak_equals_weeks [OF p] k w p show ?thesis by simp
qed


end
